theory Spec2Isabelle
  imports Main "HOL-Library.Sublist"
begin

section \<open>Values shared by the two utilities\<close>

text \<open>
  Python exceptions that the two source files can see. Only \<open>urllib.error.HTTPError\<close> is
  told apart from the rest by the code (it carries a status code, a reason phrase and a
  body); \<open>KeyError\<close> is what \<open>os.environ[...]\<close> and \<open>event[...]\<close> raise;
  \<open>TimeoutError\<close> is raised by the readiness waiter. Every other subclass of
  \<open>Exception\<close> (URLError, botocore errors, JSONDecodeError, ...) is \<open>OtherException\<close>
  with its message.
\<close>

datatype exn =
    HTTPError nat string string
  | KeyError string
  | TimeoutError string
  | OtherException string

text \<open>\<open>str(n)\<close> for a non-negative Python int.\<close>

fun str_nat :: "nat \<Rightarrow> string" where
  "str_nat n = (if n < 10 then [''0123456789'' ! n]
                else str_nat (n div 10) @ [''0123456789'' ! (n mod 10)])"

declare str_nat.simps [simp del]

text \<open>
  \<open>str(e)\<close>: \<open>HTTPError.__str__\<close> is \<open>'HTTP Error %s: %s' % (code, msg)\<close>, \<open>KeyError\<close>
  shows the repr of the missing key (the keys here are plain identifiers, so the repr is
  the key between single quotes), the others show their message.
\<close>

fun str_exn :: "exn \<Rightarrow> string" where
  "str_exn (HTTPError code msg body) = ''HTTP Error '' @ str_nat code @ '': '' @ msg"
| "str_exn (KeyError k) = [CHR 0x27] @ k @ [CHR 0x27]"
| "str_exn (TimeoutError m) = m"
| "str_exn (OtherException m) = m"

text \<open>
  JSON documents as \<open>json.loads\<close> produces them (numbers restricted to integers: the code
  never looks inside a dashboard document). A Python dict keeps insertion order, so an
  object is an association list.
\<close>

datatype json =
    JNull
  | JBool bool
  | JInt int
  | JString string
  | JArray "json list"
  | JObject "(string \<times> json) list"

fun member :: "json \<Rightarrow> string \<Rightarrow> json option" where
  "member (JObject kvs) k = map_of kvs k"
| "member _ k = None"

text \<open>
  A \<open>urllib.request.Request\<close>. The body is kept as the JSON document whose
  \<open>json.dumps(...).encode('utf-8')\<close> is sent; header names are written as in the source.
\<close>

record request =
  url :: string
  http_method :: string
  headers :: "(string \<times> string) list"
  data :: "json option"

text \<open>
  Every call that leaves the process: creating a boto3 client (service, region), the
  Grafana control-plane call \<open>create_workspace_api_key\<close> (client region, keyName, keyRole,
  secondsToLive, workspaceId), the S3 call \<open>get_object\<close> (client region, Bucket, Key), and
  \<open>urllib.request.urlopen\<close> of a request with its optional timeout in seconds.
\<close>

datatype call =
    Boto3Client string string
  | CreateWorkspaceApiKey string string string nat string
  | GetObject string string string
  | UrlOpen request "nat option"

text \<open>
  What a call gives back when it does not raise: an HTTP status and a body (for
  \<open>create_workspace_api_key\<close> the \<open>'key'\<close> entry of the result, for \<open>get_object\<close> the
  decoded \<open>Body\<close>, for \<open>urlopen\<close> the body as it arrives, before it is read and
  decoded).
\<close>

record response =
  status :: nat
  content :: string

text \<open>
  Everything the code takes from outside: the process environment, the standard-library
  functions \<open>json.loads\<close>, \<open>json.dumps\<close>, \<open>base64.b64encode\<close>, reading a text file,
  \<open>.read().decode()\<close> on the body of a response or of an HTTPError (the text, or the
  exception raised while reading or decoding), and the outside world, which answers each
  call from its current state and says how many milliseconds the call took.
\<close>

record 'w runtime =
  environ :: "string \<rightharpoonup> string"
  json_loads :: "string \<Rightarrow> exn + json"
  json_dumps :: "json \<Rightarrow> string"
  b64encode :: "string \<Rightarrow> string"
  open_read :: "string \<Rightarrow> exn + string"
  read_decode :: "string \<Rightarrow> exn + string"
  respond :: "call \<Rightarrow> 'w \<Rightarrow> (exn + response) \<times> 'w"
  elapse :: "call \<Rightarrow> 'w \<Rightarrow> nat"

text \<open>
  The state threaded through a run: the outside world, the wall clock in milliseconds
  (what \<open>time.time()\<close> reads), the calls issued so far in order, and the lines printed.
\<close>

record 'w state =
  world :: 'w
  clock :: int
  trace :: "call list"
  stdout :: "string list"

definition perform :: "'w runtime \<Rightarrow> call \<Rightarrow> 'w state \<Rightarrow> (exn + response) \<times> 'w state" where
  "perform rt c s =
     (case respond rt c (world s) of
        (r, w') \<Rightarrow>
          (r, s\<lparr>world := w',
                clock := clock s + int (elapse rt c (world s)),
                trace := trace s @ [c]\<rparr>))"

section \<open>Python string operations used by the handler\<close>

text \<open>
  \<open>s.partition(sep)\<close>: split at the first occurrence of \<open>sep\<close>; when \<open>sep\<close> does not
  occur the result is \<open>(s, '', '')\<close>. Both call sites pass a non-empty literal (Python
  raises ValueError for an empty separator).
\<close>

fun partition_py :: "string \<Rightarrow> string \<Rightarrow> string \<times> string \<times> string" where
  "partition_py sep [] = ([], [], [])"
| "partition_py sep (c # cs) =
     (if prefix sep (c # cs) then ([], sep, drop (length sep) (c # cs))
      else (case partition_py sep cs of (a, b, r) \<Rightarrow> (c # a, b, r)))"

text \<open>
  \<open>s.split(sep)\<close> for a one-character separator: always at least one piece (so the
  first case of the inner distinction never applies).
\<close>

fun split_py :: "char \<Rightarrow> string \<Rightarrow> string list" where
  "split_py sep [] = [[]]"
| "split_py sep (c # cs) =
     (if c = sep then [] # split_py sep cs
      else (case split_py sep cs of
              [] \<Rightarrow> [[c]]
            | p # ps \<Rightarrow> (c # p) # ps))"

text \<open>
  \<open>str.isspace\<close> on the characters below 256: tab, LF, VT, FF, CR, the separators
  0x1c..0x1f, space, NEL (0x85) and the no-break space (0xa0).
\<close>

definition isspace :: "char \<Rightarrow> bool" where
  "isspace c \<longleftrightarrow> c \<in> set [CHR 0x09, CHR 0x0A, CHR 0x0B, CHR 0x0C, CHR 0x0D,
                              CHR 0x1C, CHR 0x1D, CHR 0x1E, CHR 0x1F, CHR 0x20,
                              CHR 0x85, CHR 0xA0]"

definition lstrip :: "string \<Rightarrow> string" where
  "lstrip s = dropWhile isspace s"

definition rstrip :: "string \<Rightarrow> string" where
  "rstrip s = rev (dropWhile isspace (rev s))"

definition strip :: "string \<Rightarrow> string" where
  "strip s = rstrip (lstrip s)"

section \<open>The stack-lifecycle provisioner (grafana\_provisioner.py)\<close>

record lambda_context =
  log_stream_name :: string

text \<open>
  \<open>reason or f'See the details in CloudWatch Log Stream: {context.log_stream_name}'\<close>:
  a missing or empty reason gives the default text.
\<close>

definition reason_or_default :: "lambda_context \<Rightarrow> string option \<Rightarrow> string" where
  "reason_or_default context reason =
     (case reason of
        None \<Rightarrow> ''See the details in CloudWatch Log Stream: '' @ log_stream_name context
      | Some r \<Rightarrow>
          if r = [] then ''See the details in CloudWatch Log Stream: '' @ log_stream_name context
          else r)"

text \<open>The response envelope and the PUT request built by \<open>send_cfn_response\<close>.\<close>

definition cfn_response_body ::
  "string \<Rightarrow> string \<Rightarrow> string \<Rightarrow> string \<Rightarrow> string \<Rightarrow> string \<Rightarrow> (string \<times> json) list \<Rightarrow> json" where
  "cfn_response_body st reason physical stack_id request_id logical_id dat =
     JObject [(''Status'', JString st),
              (''Reason'', JString reason),
              (''PhysicalResourceId'', JString physical),
              (''StackId'', JString stack_id),
              (''RequestId'', JString request_id),
              (''LogicalResourceId'', JString logical_id),
              (''Data'', JObject dat)]"

definition cfn_request :: "'w runtime \<Rightarrow> string \<Rightarrow> json \<Rightarrow> request" where
  "cfn_request rt response_url response_body =
     \<lparr>url = response_url, http_method = ''PUT'',
      headers = [(''content-type'', ''''),
                 (''content-length'', str_nat (length (json_dumps rt response_body)))],
      data = Some response_body\<rparr>"

text \<open>
  \<open>send_cfn_response(event, context, status, data=None, reason=None)\<close>. A missing or
  empty \<open>ResponseURL\<close> returns at once; \<open>reason or ...\<close> and \<open>data or {}\<close> replace a
  missing or empty argument; \<open>event['StackId']\<close>, \<open>event['RequestId']\<close> and
  \<open>event['LogicalResourceId']\<close> raise KeyError, in that order, before anything is sent; an
  exception of \<open>urlopen\<close> is not caught here.
\<close>

definition send_cfn_response ::
  "'w runtime \<Rightarrow> (string \<rightharpoonup> string) \<Rightarrow> lambda_context \<Rightarrow> string \<Rightarrow> (string \<times> json) list option
     \<Rightarrow> string option \<Rightarrow> 'w state \<Rightarrow> (exn + unit) \<times> 'w state" where
  "send_cfn_response rt event context st dat reason s =
     (case event ''ResponseURL'' of
        None \<Rightarrow> (Inr (), s)
      | Some response_url \<Rightarrow>
          if response_url = [] then (Inr (), s)
          else
            (case event ''StackId'' of
               None \<Rightarrow> (Inl (KeyError ''StackId''), s)
             | Some stack_id \<Rightarrow>
            (case event ''RequestId'' of
               None \<Rightarrow> (Inl (KeyError ''RequestId''), s)
             | Some request_id \<Rightarrow>
            (case event ''LogicalResourceId'' of
               None \<Rightarrow> (Inl (KeyError ''LogicalResourceId''), s)
             | Some logical_id \<Rightarrow>
                 let response_body =
                       cfn_response_body st (reason_or_default context reason) (log_stream_name context)
                         stack_id request_id logical_id
                         (case dat of None \<Rightarrow> [] | Some d \<Rightarrow> d)
                 in
                 (case perform rt (UrlOpen (cfn_request rt response_url response_body) None) s of
                    (Inl e, s') \<Rightarrow> (Inl e, s')
                  | (Inr resp, s') \<Rightarrow> (Inr (), s'))))))"

text \<open>
  \<open>get_dashboard_json(s3, s3_uri)\<close>; the client \<open>s3\<close> is given by the region it was
  created for. An empty locator or one that does not start with \<open>s3://\<close> gives \<open>None\<close>
  without any call; otherwise the text after \<open>s3://\<close> is cut at its first \<open>/\<close>.
\<close>

definition get_dashboard_json ::
  "'w runtime \<Rightarrow> string \<Rightarrow> string \<Rightarrow> 'w state \<Rightarrow> (exn + string option) \<times> 'w state" where
  "get_dashboard_json rt s3 s3_uri s =
     (if s3_uri = [] \<or> \<not> prefix ''s3://'' s3_uri then (Inr None, s)
      else
        (case partition_py ''s3://'' s3_uri of
           (_, _, rest) \<Rightarrow>
             (case partition_py ''/'' rest of
                (bucket, _, key) \<Rightarrow>
                  (case perform rt (GetObject s3 bucket key) s of
                     (Inl e, s') \<Rightarrow> (Inl e, s')
                   | (Inr obj, s') \<Rightarrow> (Inr (Some (content obj)), s')))))"

text \<open>The data-source definition and the two requests of \<open>ensure_prom_datasource\<close>.\<close>

definition datasource_payload :: "string \<Rightarrow> string \<Rightarrow> json" where
  "datasource_payload region amp_workspace_id =
     JObject [(''name'', JString ''Prometheus''),
              (''type'', JString ''prometheus''),
              (''uid'', JString ''prom''),
              (''access'', JString ''proxy''),
              (''url'', JString (''https://aps-workspaces.'' @ region @ ''.amazonaws.com/workspaces/''
                                 @ amp_workspace_id @ ''/api/v1/query'')),
              (''jsonData'', JObject [(''httpMethod'', JString ''POST''),
                                      (''sigV4Auth'', JBool True),
                                      (''sigV4Region'', JString region)])]"

definition bearer_headers :: "string \<Rightarrow> (string \<times> string) list" where
  "bearer_headers api_key =
     [(''Authorization'', ''Bearer '' @ api_key), (''Content-Type'', ''application/json'')]"

definition datasource_put :: "string \<Rightarrow> string \<Rightarrow> string \<Rightarrow> string \<Rightarrow> request" where
  "datasource_put grafana_url api_key region amp_workspace_id =
     \<lparr>url = grafana_url @ ''/api/datasources/uid/prom'', http_method = ''PUT'',
      headers = bearer_headers api_key,
      data = Some (datasource_payload region amp_workspace_id)\<rparr>"

definition datasource_post :: "string \<Rightarrow> string \<Rightarrow> string \<Rightarrow> string \<Rightarrow> request" where
  "datasource_post grafana_url api_key region amp_workspace_id =
     \<lparr>url = grafana_url @ ''/api/datasources'', http_method = ''POST'',
      headers = bearer_headers api_key,
      data = Some (datasource_payload region amp_workspace_id)\<rparr>"

text \<open>
  \<open>ensure_prom_datasource\<close>: the PUT by uid first; \<open>except HTTPError\<close> re-raises unless
  the code is 404 or 400, in which case control falls through to the POST. Exceptions that
  are not HTTPError are not caught.
\<close>

definition ensure_prom_datasource ::
  "'w runtime \<Rightarrow> string \<Rightarrow> string \<Rightarrow> string \<Rightarrow> string \<Rightarrow> 'w state \<Rightarrow> (exn + unit) \<times> 'w state" where
  "ensure_prom_datasource rt grafana_url api_key region amp_workspace_id s =
     (let create = (\<lambda>s1.
            (case perform rt (UrlOpen (datasource_post grafana_url api_key region amp_workspace_id) None) s1 of
               (Inl e, s2) \<Rightarrow> (Inl e, s2)
             | (Inr resp, s2) \<Rightarrow> (Inr (), s2)))
      in
      (case perform rt (UrlOpen (datasource_put grafana_url api_key region amp_workspace_id) None) s of
         (Inr resp, s1) \<Rightarrow> (Inr (), s1)
       | (Inl (HTTPError code msg body), s1) \<Rightarrow>
           if code \<notin> {404, 400} then (Inl (HTTPError code msg body), s1) else create s1
       | (Inl e, s1) \<Rightarrow> (Inl e, s1)))"

text \<open>The import envelope and \<open>import_dashboard(grafana_url, api_key, dashboard_json)\<close>.\<close>

definition import_payload :: "json \<Rightarrow> json" where
  "import_payload dashboard =
     JObject [(''dashboard'', dashboard), (''overwrite'', JBool True), (''folderId'', JInt 0)]"

definition import_request :: "string \<Rightarrow> string \<Rightarrow> json \<Rightarrow> request" where
  "import_request grafana_url api_key dashboard =
     \<lparr>url = grafana_url @ ''/api/dashboards/db'', http_method = ''POST'',
      headers = bearer_headers api_key,
      data = Some (import_payload dashboard)\<rparr>"

definition import_dashboard ::
  "'w runtime \<Rightarrow> string \<Rightarrow> string \<Rightarrow> string \<Rightarrow> 'w state \<Rightarrow> (exn + unit) \<times> 'w state" where
  "import_dashboard rt grafana_url api_key dashboard_json s =
     (case json_loads rt dashboard_json of
        Inl e \<Rightarrow> (Inl e, s)
      | Inr dashboard \<Rightarrow>
          (case perform rt (UrlOpen (import_request grafana_url api_key dashboard) None) s of
             (Inl e, s') \<Rightarrow> (Inl e, s')
           | (Inr resp, s') \<Rightarrow> (Inr (), s')))"

text \<open>
  The locators of the handler's loop:
  \<open>filter(None, [u.strip() for u in s3_uris.split(',')])\<close>.
\<close>

definition dashboard_uris :: "string \<Rightarrow> string list" where
  "dashboard_uris s3_uris = filter (\<lambda>u. u \<noteq> []) (map strip (split_py CHR '','' s3_uris))"

text \<open>
  The body of the loop, and the loop: a locator whose fetch gives \<open>None\<close> or an empty
  text is passed over (\<open>if body:\<close>); an exception ends the loop.
\<close>

definition import_uri ::
  "'w runtime \<Rightarrow> string \<Rightarrow> string \<Rightarrow> string \<Rightarrow> string \<Rightarrow> 'w state \<Rightarrow> (exn + unit) \<times> 'w state" where
  "import_uri rt s3 endpoint api_key uri s =
     (case get_dashboard_json rt s3 uri s of
        (Inl e, s1) \<Rightarrow> (Inl e, s1)
      | (Inr None, s1) \<Rightarrow> (Inr (), s1)
      | (Inr (Some body), s1) \<Rightarrow>
          if body = [] then (Inr (), s1) else import_dashboard rt endpoint api_key body s1)"

fun import_uris ::
  "'w runtime \<Rightarrow> string \<Rightarrow> string \<Rightarrow> string \<Rightarrow> string list \<Rightarrow> 'w state \<Rightarrow> (exn + unit) \<times> 'w state" where
  "import_uris rt s3 endpoint api_key [] s = (Inr (), s)"
| "import_uris rt s3 endpoint api_key (uri # uris) s =
     (case import_uri rt s3 endpoint api_key uri s of
        (Inl e, s1) \<Rightarrow> (Inl e, s1)
      | (Inr u, s1) \<Rightarrow> import_uris rt s3 endpoint api_key uris s1)"

text \<open>
  Lines 95 to 120 of the handler: the steps of the Create/Update branch before the
  callback. \<open>os.environ[...]\<close> raises KeyError for a missing variable;
  \<open>DASHBOARD_URIS\<close> defaults to the empty string.
\<close>

definition provision :: "'w runtime \<Rightarrow> 'w state \<Rightarrow> (exn + unit) \<times> 'w state" where
  "provision rt s =
     (case environ rt ''AWS_REGION'' of
        None \<Rightarrow> (Inl (KeyError ''AWS_REGION''), s)
      | Some region \<Rightarrow>
     (case environ rt ''GRAFANA_WORKSPACE_ID'' of
        None \<Rightarrow> (Inl (KeyError ''GRAFANA_WORKSPACE_ID''), s)
      | Some workspace_id \<Rightarrow>
     (case environ rt ''GRAFANA_ENDPOINT'' of
        None \<Rightarrow> (Inl (KeyError ''GRAFANA_ENDPOINT''), s)
      | Some endpoint \<Rightarrow>
     (case environ rt ''AMP_WORKSPACE_ID'' of
        None \<Rightarrow> (Inl (KeyError ''AMP_WORKSPACE_ID''), s)
      | Some amp_workspace_id \<Rightarrow>
          let s3_uris = (case environ rt ''DASHBOARD_URIS'' of None \<Rightarrow> [] | Some v \<Rightarrow> v) in
          (case perform rt (Boto3Client ''grafana'' region) s of
             (Inl e, s1) \<Rightarrow> (Inl e, s1)
           | (Inr grafana, s1) \<Rightarrow>
          (case perform rt (Boto3Client ''s3'' region) s1 of
             (Inl e, s2) \<Rightarrow> (Inl e, s2)
           | (Inr s3, s2) \<Rightarrow>
          (case perform rt (CreateWorkspaceApiKey region ''cdk-provision'' ''ADMIN'' 3600 workspace_id) s2 of
             (Inl e, s3) \<Rightarrow> (Inl e, s3)
           | (Inr api_key_resp, s3) \<Rightarrow>
               let api_key = content api_key_resp in
               (case ensure_prom_datasource rt endpoint api_key region amp_workspace_id s3 of
                  (Inl e, s4) \<Rightarrow> (Inl e, s4)
                | (Inr u, s4) \<Rightarrow>
                    import_uris rt region endpoint api_key (dashboard_uris s3_uris) s4))))))))"

text \<open>
  \<open>handler(event, context)\<close>. \<open>Inl\<close> in the result is an exception that leaves the entry
  point. The \<open>try\<close> block covers the provisioning steps and the SUCCESS callback; the
  \<open>except Exception\<close> clause sends the FAILED callback outside any \<open>try\<close>.
\<close>

definition handler_try ::
  "'w runtime \<Rightarrow> (string \<rightharpoonup> string) \<Rightarrow> lambda_context \<Rightarrow> string \<Rightarrow> 'w state \<Rightarrow> (exn + unit) \<times> 'w state" where
  "handler_try rt event context request_type s =
     (if request_type \<in> {''Create'', ''Update''} then
        (case provision rt s of
           (Inl e, s1) \<Rightarrow> (Inl e, s1)
         | (Inr u, s1) \<Rightarrow>
             send_cfn_response rt event context ''SUCCESS''
               (Some [(''Status'', JString ''Provisioned'')]) None s1)
      else
        send_cfn_response rt event context ''SUCCESS''
          (Some [(''Status'', JString ''Deleted'')]) None s)"

definition handler ::
  "'w runtime \<Rightarrow> (string \<rightharpoonup> string) \<Rightarrow> lambda_context \<Rightarrow> 'w state \<Rightarrow> (exn + unit) \<times> 'w state" where
  "handler rt event context s =
     (let request_type = (case event ''RequestType'' of None \<Rightarrow> ''Create'' | Some t \<Rightarrow> t) in
      (case handler_try rt event context request_type s of
         (Inr u, s1) \<Rightarrow> (Inr (), s1)
       | (Inl e, s1) \<Rightarrow> send_cfn_response rt event context ''FAILED'' None (Some (str_exn e)) s1))"

section \<open>The standalone readiness waiter and importer (import\_dashboard.py)\<close>

text \<open>Module-level configuration, read from the environment with defaults.\<close>

definition GRAFANA_URL :: "'w runtime \<Rightarrow> string" where
  "GRAFANA_URL rt = (case environ rt ''GRAFANA_URL'' of None \<Rightarrow> ''http://grafana:3000'' | Some v \<Rightarrow> v)"

definition GRAFANA_USER :: "'w runtime \<Rightarrow> string" where
  "GRAFANA_USER rt = (case environ rt ''GRAFANA_USER'' of None \<Rightarrow> ''admin'' | Some v \<Rightarrow> v)"

definition GRAFANA_PASS :: "'w runtime \<Rightarrow> string" where
  "GRAFANA_PASS rt = (case environ rt ''GRAFANA_PASS'' of None \<Rightarrow> ''admin'' | Some v \<Rightarrow> v)"

definition DASHBOARD_PATH :: "'w runtime \<Rightarrow> string" where
  "DASHBOARD_PATH rt =
     (case environ rt ''DASHBOARD_PATH'' of None \<Rightarrow> ''/dashboards/liveevent-overview.json'' | Some v \<Rightarrow> v)"

text \<open>\<open>urlopen(health_url, timeout=5)\<close> with a plain URL is a GET without body.\<close>

definition health_call :: "'w runtime \<Rightarrow> call" where
  "health_call rt =
     UrlOpen \<lparr>url = GRAFANA_URL rt @ ''/api/health'', http_method = ''GET'', headers = [], data = None\<rparr> (Some 5)"

text \<open>\<open>time.sleep(n)\<close> moves the clock by \<open>n\<close> seconds.\<close>

definition sleep :: "nat \<Rightarrow> 'w state \<Rightarrow> 'w state" where
  "sleep secs s = s\<lparr>clock := clock s + 1000 * int secs\<rparr>"

text \<open>
  The \<open>while time.time() < deadline\<close> loop of \<open>wait_for_grafana_ready\<close>: a response with
  status 200 returns; any other response and any exception lead to \<open>time.sleep(2)\<close> and
  the next round; leaving the loop raises TimeoutError.
\<close>

function wait_loop :: "'w runtime \<Rightarrow> int \<Rightarrow> 'w state \<Rightarrow> (exn + unit) \<times> 'w state" where
  "wait_loop rt deadline s =
     (if clock s < deadline then
        (case perform rt (health_call rt) s of
           (Inr resp, s1) \<Rightarrow>
             if status resp = 200 then (Inr (), s1)
             else wait_loop rt deadline (sleep 2 s1)
         | (Inl e, s1) \<Rightarrow> wait_loop rt deadline (sleep 2 s1))
      else (Inl (TimeoutError ''Grafana did not become ready in time''), s))"
  by pat_completeness auto
termination
  by (relation "measure (\<lambda>(rt, deadline, s). nat (deadline - clock s))")
     (auto simp: perform_def sleep_def split: prod.splits)

declare wait_loop.simps [simp del]

definition wait_for_grafana_ready :: "'w runtime \<Rightarrow> int \<Rightarrow> 'w state \<Rightarrow> (exn + unit) \<times> 'w state" where
  "wait_for_grafana_ready rt timeout_seconds s = wait_loop rt (clock s + 1000 * timeout_seconds) s"

text \<open>The envelope and the request of the standalone \<open>import_dashboard()\<close>.\<close>

definition script_payload :: "json \<Rightarrow> json" where
  "script_payload dashboard =
     JObject [(''dashboard'', dashboard), (''overwrite'', JBool True), (''folderId'', JInt 0)]"

definition script_request :: "'w runtime \<Rightarrow> json \<Rightarrow> request" where
  "script_request rt dashboard =
     \<lparr>url = GRAFANA_URL rt @ ''/api/dashboards/db'', http_method = ''POST'',
      headers = [(''Authorization'',
                  ''Basic '' @ b64encode rt (GRAFANA_USER rt @ '':'' @ GRAFANA_PASS rt)),
                 (''Content-Type'', ''application/json'')],
      data = Some (script_payload dashboard)\<rparr>"

text \<open>\<open>print(line)\<close>.\<close>

definition print_py :: "string \<Rightarrow> 'w state \<Rightarrow> 'w state" where
  "print_py line s = s\<lparr>stdout := stdout s @ [line]\<rparr>"

text \<open>
  The \<open>try\<close> block of the standalone \<open>import_dashboard()\<close>: the POST with a 10 second
  timeout, then the status line is printed, then the body is read and decoded, which can
  raise, then the body is printed.
\<close>

definition script_try :: "'w runtime \<Rightarrow> json \<Rightarrow> 'w state \<Rightarrow> (exn + unit) \<times> 'w state" where
  "script_try rt dashboard s =
     (case perform rt (UrlOpen (script_request rt dashboard) (Some 10)) s of
        (Inl e, s1) \<Rightarrow> (Inl e, s1)
      | (Inr resp, s1) \<Rightarrow>
          let s2 = print_py (''Imported dashboard: '' @ str_nat (status resp)) s1 in
          (case read_decode rt (content resp) of
             Inl e \<Rightarrow> (Inl e, s2)
           | Inr body_text \<Rightarrow> (Inr (), print_py body_text s2)))"

text \<open>
  The standalone \<open>import_dashboard()\<close>: the file is read and parsed and the \<open>try\<close> block
  runs. \<open>except urllib.error.HTTPError\<close> prints the code, reads and decodes the body of
  the error, which can raise in place of the error, prints it and raises the error again;
  any other exception passes through.
\<close>

definition import_dashboard_script :: "'w runtime \<Rightarrow> 'w state \<Rightarrow> (exn + unit) \<times> 'w state" where
  "import_dashboard_script rt s =
     (case open_read rt (DASHBOARD_PATH rt) of
        Inl e \<Rightarrow> (Inl e, s)
      | Inr text \<Rightarrow>
     (case json_loads rt text of
        Inl e \<Rightarrow> (Inl e, s)
      | Inr dashboard \<Rightarrow>
          (case script_try rt dashboard s of
             (Inr u, s1) \<Rightarrow> (Inr (), s1)
           | (Inl (HTTPError code msg body), s1) \<Rightarrow>
               let s2 = print_py (''Import failed: '' @ str_nat code) s1 in
               (case read_decode rt body of
                  Inl e \<Rightarrow> (Inl e, s2)
                | Inr body_text \<Rightarrow> (Inl (HTTPError code msg body), print_py body_text s2))
           | (Inl e, s1) \<Rightarrow> (Inl e, s1))))"



section \<open>Observing a run\<close>

text \<open>
  A lifecycle event as the orchestrator sends it: a non-empty \<open>ResponseURL\<close> and the
  three identifiers that the response envelope copies.
\<close>

definition lifecycle_event :: "(string \<rightharpoonup> string) \<Rightarrow> string \<Rightarrow> bool" where
  "lifecycle_event event response_url \<longleftrightarrow>
     event ''ResponseURL'' = Some response_url \<and> response_url \<noteq> [] \<and>
     event ''StackId'' \<noteq> None \<and> event ''RequestId'' \<noteq> None \<and>
     event ''LogicalResourceId'' \<noteq> None"

text \<open>The \<open>Status\<close> and \<open>Reason\<close> of the envelope a call carries, if it carries one.\<close>

definition envelope_field :: "string \<Rightarrow> call \<Rightarrow> string option" where
  "envelope_field k c =
     (case c of
        UrlOpen r t \<Rightarrow>
          (case data r of
             None \<Rightarrow> None
           | Some d \<Rightarrow> (case member d k of Some (JString v) \<Rightarrow> Some v | _ \<Rightarrow> None))
      | _ \<Rightarrow> None)"

definition callback_status :: "call \<Rightarrow> string option" where
  "callback_status c = envelope_field ''Status'' c"


text \<open>
  A callback is a PUT to the response URL whose body has a \<open>Status\<close>; every other call
  is a backend call.
\<close>

definition is_callback :: "string \<Rightarrow> call \<Rightarrow> bool" where
  "is_callback response_url c \<longleftrightarrow>
     (case c of
        UrlOpen r t \<Rightarrow> url r = response_url \<and> http_method r = ''PUT'' \<and> callback_status c \<noteq> None
      | _ \<Rightarrow> False)"

text \<open>The call that \<open>send_cfn_response\<close> issues for a lifecycle event.\<close>

definition cfn_call ::
  "'w runtime \<Rightarrow> (string \<rightharpoonup> string) \<Rightarrow> lambda_context \<Rightarrow> string \<Rightarrow> (string \<times> json) list option
     \<Rightarrow> string option \<Rightarrow> call" where
  "cfn_call rt event context st dat reason =
     UrlOpen (cfn_request rt (the (event ''ResponseURL''))
                (cfn_response_body st (reason_or_default context reason) (log_stream_name context)
                   (the (event ''StackId'')) (the (event ''RequestId''))
                   (the (event ''LogicalResourceId''))
                   (case dat of None \<Rightarrow> [] | Some d \<Rightarrow> d)))
             None"

text \<open>
  The request type the handler dispatches on, and the steps it runs before the callback:
  the provisioning steps for Create and Update, nothing otherwise.
\<close>

definition request_type_of :: "(string \<rightharpoonup> string) \<Rightarrow> string" where
  "request_type_of event = (case event ''RequestType'' of None \<Rightarrow> ''Create'' | Some t \<Rightarrow> t)"

definition handler_steps :: "'w runtime \<Rightarrow> (string \<rightharpoonup> string) \<Rightarrow> 'w state \<Rightarrow> (exn + unit) \<times> 'w state" where
  "handler_steps rt event s =
     (if request_type_of event \<in> {''Create'', ''Update''} then provision rt s else (Inr (), s))"

text \<open>The calls a run added to the trace.\<close>

definition new_calls :: "'w state \<Rightarrow> 'w state \<Rightarrow> call list" where
  "new_calls s s' = drop (length (trace s)) (trace s')"

text \<open>The outcome of the PUT that sends \<open>ensure_prom_datasource\<close> on to the POST.\<close>

definition falls_back :: "exn + response \<Rightarrow> bool" where
  "falls_back r \<longleftrightarrow>
     (case r of Inl (HTTPError code msg body) \<Rightarrow> code = 404 \<or> code = 400 | _ \<Rightarrow> False)"

text \<open>
  A backend that keeps the data source: where it has the data source the PUT by uid
  succeeds and keeps it; where it has not, the PUT answers 404 and the POST that follows
  succeeds and stores it.
\<close>

definition datasource_store :: "'w runtime \<Rightarrow> ('w \<Rightarrow> bool) \<Rightarrow> call \<Rightarrow> call \<Rightarrow> bool" where
  "datasource_store rt has put post \<longleftrightarrow>
     (\<forall>w. (has w \<longrightarrow> (\<exists>resp w'. respond rt put w = (Inr resp, w') \<and> has w')) \<and>
          (\<not> has w \<longrightarrow>
             (\<exists>msg body w'. respond rt put w = (Inl (HTTPError 404 msg body), w') \<and>
                (\<exists>resp w''. respond rt post w' = (Inr resp, w'') \<and> has w''))))"

text \<open>The object-store fetches among a list of calls, and the fetch a locator stands for.\<close>

fun is_get_object :: "call \<Rightarrow> bool" where
  "is_get_object (GetObject s3 bucket key) = True"
| "is_get_object _ = False"

definition locator_call :: "string \<Rightarrow> string \<Rightarrow> call" where
  "locator_call s3 uri =
     (case partition_py ''/'' (drop 5 uri) of (bucket, _, key) \<Rightarrow> GetObject s3 bucket key)"

text \<open>
  The calls that processing one locator makes in a world: nothing for a locator that does
  not start with \<open>s3://\<close>; otherwise the fetch, followed by the import of the fetched text
  when the fetch returned a non-empty text that parses.
\<close>

definition locator_calls ::
  "'w runtime \<Rightarrow> string \<Rightarrow> string \<Rightarrow> string \<Rightarrow> string \<Rightarrow> 'w \<Rightarrow> call list" where
  "locator_calls rt s3 endpoint api_key uri w =
     (if \<not> prefix ''s3://'' uri then []
      else locator_call s3 uri #
        (case fst (respond rt (locator_call s3 uri) w) of
           Inl e \<Rightarrow> []
         | Inr obj \<Rightarrow>
             if content obj = [] then []
             else (case json_loads rt (content obj) of
                     Inl e \<Rightarrow> []
                   | Inr dashboard \<Rightarrow> [UrlOpen (import_request endpoint api_key dashboard) None])))"

text \<open>\<open>sep.join(pieces)\<close> for a one-character separator.\<close>

fun join_py :: "char \<Rightarrow> string list \<Rightarrow> string" where
  "join_py sep [] = []"
| "join_py sep [p] = p"
| "join_py sep (p # q # ps) = p @ sep # join_py sep (q # ps)"

text \<open>
  The readiness test of the waiter on the outcome of a health check, and the state in
  which the \<open>n\<close>-th health check starts when none before it was ready.
\<close>

definition ready :: "exn + response \<Rightarrow> bool" where
  "ready r \<longleftrightarrow> (case r of Inr resp \<Rightarrow> status resp = 200 | Inl e \<Rightarrow> False)"

fun poll_state :: "'w runtime \<Rightarrow> nat \<Rightarrow> 'w state \<Rightarrow> 'w state" where
  "poll_state rt 0 s = s"
| "poll_state rt (Suc n) s = poll_state rt n (sleep 2 (snd (perform rt (health_call rt) s)))"


section \<open>Example inputs\<close>

text \<open>
  A runtime in which every call succeeds with status 200, one in which every call fails
  with a connection error, two lifecycle events, and the state before a run.
\<close>

definition example_environ :: "string \<rightharpoonup> string" where
  "example_environ =
     [''AWS_REGION'' \<mapsto> ''eu-west-1'', ''GRAFANA_WORKSPACE_ID'' \<mapsto> ''g-1'',
      ''GRAFANA_ENDPOINT'' \<mapsto> ''https://g-1.grafana'', ''AMP_WORKSPACE_ID'' \<mapsto> ''ws-1'',
      ''DASHBOARD_URIS'' \<mapsto> ''s3://b/a.json, ,s3://b/c.json'']"

definition healthy_runtime :: "unit runtime" where
  "healthy_runtime =
     \<lparr>environ = example_environ,
      json_loads = (\<lambda>t. Inr (JObject [])),
      json_dumps = (\<lambda>j. ''{}''),
      b64encode = (\<lambda>t. t),
      open_read = (\<lambda>p. Inr ''{}''),
      read_decode = (\<lambda>b. Inr b),
      respond = (\<lambda>c w. (Inr \<lparr>status = 200, content = ''{}''\<rparr>, w)),
      elapse = (\<lambda>c w. 0)\<rparr>"

definition unreachable_runtime :: "unit runtime" where
  "unreachable_runtime =
     \<lparr>environ = example_environ,
      json_loads = (\<lambda>t. Inr (JObject [])),
      json_dumps = (\<lambda>j. ''{}''),
      b64encode = (\<lambda>t. t),
      open_read = (\<lambda>p. Inr ''{}''),
      read_decode = (\<lambda>b. Inr b),
      respond = (\<lambda>c w. (Inl (OtherException ''connection refused''), w)),
      elapse = (\<lambda>c w. 5000)\<rparr>"

definition create_event :: "string \<rightharpoonup> string" where
  "create_event =
     [''RequestType'' \<mapsto> ''Create'', ''ResponseURL'' \<mapsto> ''https://cfn.example/cb'',
      ''StackId'' \<mapsto> ''stack'', ''RequestId'' \<mapsto> ''req'', ''LogicalResourceId'' \<mapsto> ''res'']"

definition delete_event :: "string \<rightharpoonup> string" where
  "delete_event =
     [''RequestType'' \<mapsto> ''Delete'', ''ResponseURL'' \<mapsto> ''https://cfn.example/cb'',
      ''StackId'' \<mapsto> ''stack'', ''RequestId'' \<mapsto> ''req'', ''LogicalResourceId'' \<mapsto> ''res'']"

definition example_context :: lambda_context where
  "example_context = \<lparr>log_stream_name = ''log''\<rparr>"

definition initial_state :: "unit state" where
  "initial_state = \<lparr>world = (), clock = 0, trace = [], stdout = []\<rparr>"

text \<open>A backend that answers like a data-source store, and the state in which it is empty.\<close>

definition store_runtime :: "bool runtime" where
  "store_runtime =
     \<lparr>environ = example_environ,
      json_loads = (\<lambda>t. Inr (JObject [])),
      json_dumps = (\<lambda>j. ''{}''),
      b64encode = (\<lambda>t. t),
      open_read = (\<lambda>p. Inr ''{}''),
      read_decode = (\<lambda>b. Inr b),
      respond = (\<lambda>c w.
        (case c of
           UrlOpen r t \<Rightarrow>
             if http_method r = ''PUT'' then
               (if w then (Inr \<lparr>status = 200, content = ''{}''\<rparr>, w)
                else (Inl (HTTPError 404 ''Not Found'' ''{}''), w))
             else if w then (Inl (HTTPError 409 ''Conflict'' ''{}''), w)
             else (Inr \<lparr>status = 200, content = ''{}''\<rparr>, True)
         | _ \<Rightarrow> (Inr \<lparr>status = 200, content = ''{}''\<rparr>, w))),
      elapse = (\<lambda>c w. 0)\<rparr>"

definition empty_store :: "bool state" where
  "empty_store = \<lparr>world = False, clock = 0, trace = [], stdout = []\<rparr>"


definition flaky_runtime :: "bool runtime" where
  "flaky_runtime =
     \<lparr>environ = example_environ,
      json_loads = (\<lambda>t. Inr (JObject [])),
      json_dumps = (\<lambda>j. ''{}''),
      b64encode = (\<lambda>t. t),
      open_read = (\<lambda>p. Inr ''{}''),
      read_decode = (\<lambda>b. Inr b),
      respond = (\<lambda>c w.
        (if w then Inr \<lparr>status = 200, content = ''{}''\<rparr>
         else Inl (OtherException ''connection reset''), True)),
      elapse = (\<lambda>c w. 0)\<rparr>"

section \<open>Properties of the string operations and of single calls\<close>

lemma partition_py_absent:
  "c \<notin> set s \<Longrightarrow> partition_py [c] s = (s, [], [])"
  by (induction s) auto

lemma partition_py_prefix:
  "sep \<noteq> [] \<Longrightarrow> partition_py sep (sep @ rest) = ([], sep, rest)"
  by (cases sep) auto

lemma perform_trace: "perform rt c s = (r, s') \<Longrightarrow> trace s' = trace s @ [c]"
  by (auto simp: perform_def split: prod.splits)

lemma perform_fst: "fst (perform rt c s) = fst (respond rt c (world s))"
  by (simp add: perform_def split: prod.splits)

section \<open>Locators\<close>

text \<open>
  Claim C5. A locator that does not start with \<open>s3://\<close> (the empty string, another
  scheme such as \<open>http://...\<close>, the missing-slash form \<open>s3:/...\<close>) makes
  \<open>get_dashboard_json\<close> return \<open>None\<close> with the state untouched, so no fetch is attempted
  and nothing is raised; the handler's loop passes over it and goes on with the next
  locator.
\<close>

theorem malformed_locator_skipped:
  "(\<not> prefix ''s3://'' uri \<longrightarrow>
      get_dashboard_json rt s3 uri s = (Inr None, s) \<and>
      import_uri rt s3 endpoint api_key uri s = (Inr (), s) \<and>
      import_uris rt s3 endpoint api_key (uri # uris) s = import_uris rt s3 endpoint api_key uris s)
   \<and> (\<forall>u \<in> set ['''', ''http://grafana:3000/d.json'', ''s3:/missing-slash''].
         get_dashboard_json rt s3 u s = (Inr None, s) \<and>
         import_uri rt s3 endpoint api_key u s = (Inr (), s))"
  by (simp add: get_dashboard_json_def import_uri_def)

theorem malformed_locator_skipped_witness:
  "\<not> prefix ''s3://'' ''s3:/missing-slash'' \<and>
   get_dashboard_json healthy_runtime ''eu-west-1'' ''s3:/missing-slash'' initial_state
     = (Inr None, initial_state) \<and>
   import_uris healthy_runtime ''eu-west-1'' ''https://g-1.grafana'' ''key''
     [''s3:/missing-slash''] initial_state = (Inr (), initial_state)"
  using malformed_locator_skipped [of "''s3:/missing-slash''" healthy_runtime "''eu-west-1''"
          initial_state "''https://g-1.grafana''" "''key''" "[]"]
  by simp

text \<open>
  Claim C10. A locator \<open>s3://\<close> followed by a text without any \<open>/\<close> is not passed over:
  \<open>get_dashboard_json\<close> issues \<open>get_object\<close> with the whole remainder as the bucket and
  the empty string as the key, the result is never the skip value \<open>None\<close>, and an
  exception of the object store is the result of the operation.
\<close>

theorem locator_without_slash_is_fetched:
  assumes "CHR ''/'' \<notin> set rest"
  shows "get_dashboard_json rt s3 (''s3://'' @ rest) s =
           (case perform rt (GetObject s3 rest []) s of
              (Inl e, s') \<Rightarrow> (Inl e, s')
            | (Inr obj, s') \<Rightarrow> (Inr (Some (content obj)), s')) \<and>
         trace (snd (get_dashboard_json rt s3 (''s3://'' @ rest) s)) = trace s @ [GetObject s3 rest []] \<and>
         (\<forall>e. fst (respond rt (GetObject s3 rest []) (world s)) = Inl e \<longrightarrow>
              fst (get_dashboard_json rt s3 (''s3://'' @ rest) s) = Inl e) \<and>
         fst (get_dashboard_json rt s3 (''s3://'' @ rest) s) \<noteq> Inr None"
proof -
  have p1: "partition_py ''s3://'' (''s3://'' @ rest) = ([], ''s3://'', rest)"
    by (rule partition_py_prefix) simp
  have p2: "partition_py ''/'' rest = (rest, [], [])"
    using assms by (rule partition_py_absent)
  have pre: "prefix ''s3://'' (''s3://'' @ rest)" by simp
  have g: "get_dashboard_json rt s3 (''s3://'' @ rest) s =
           (case perform rt (GetObject s3 rest []) s of
              (Inl e, s') \<Rightarrow> (Inl e, s')
            | (Inr obj, s') \<Rightarrow> (Inr (Some (content obj)), s'))"
    unfolding get_dashboard_json_def using p1 p2 pre by simp
  obtain r s1 where p: "perform rt (GetObject s3 rest []) s = (r, s1)"
    by (cases "perform rt (GetObject s3 rest []) s")
  have t: "trace (snd (get_dashboard_json rt s3 (''s3://'' @ rest) s)) = trace s @ [GetObject s3 rest []]"
    unfolding g using perform_trace [OF p] p by (auto split: sum.splits)
  have e: "\<forall>e. fst (respond rt (GetObject s3 rest []) (world s)) = Inl e \<longrightarrow>
              fst (get_dashboard_json rt s3 (''s3://'' @ rest) s) = Inl e"
    unfolding g using perform_fst [of rt "GetObject s3 rest []" s] p by (auto split: sum.splits)
  have n: "fst (get_dashboard_json rt s3 (''s3://'' @ rest) s) \<noteq> Inr None"
    unfolding g by (auto split: prod.splits sum.splits)
  from g t e n show ?thesis by blast
qed

theorem locator_without_slash_is_fetched_witness:
  "CHR ''/'' \<notin> set ''bucket'' \<and>
   trace (snd (get_dashboard_json unreachable_runtime ''eu-west-1'' ''s3://bucket'' initial_state))
     = [GetObject ''eu-west-1'' ''bucket'' ''''] \<and>
   fst (get_dashboard_json unreachable_runtime ''eu-west-1'' ''s3://bucket'' initial_state)
     = Inl (OtherException ''connection refused'')"
proof -
  have h: "CHR ''/'' \<notin> set ''bucket''" by simp
  show ?thesis
    using h locator_without_slash_is_fetched [OF h, of unreachable_runtime "''eu-west-1''" initial_state]
    by (simp add: unreachable_runtime_def initial_state_def perform_def)
qed

section \<open>The handler and its callback\<close>












lemma send_cfn_lifecycle:
  assumes "lifecycle_event event u"
  shows "send_cfn_response rt event ctx st dat reason s =
           (case perform rt (cfn_call rt event ctx st dat reason) s of
              (Inl e, s') \<Rightarrow> (Inl e, s')
            | (Inr resp, s') \<Rightarrow> (Inr (), s'))"
  using assms
  unfolding lifecycle_event_def send_cfn_response_def cfn_call_def Let_def
  by (auto split: option.splits)

lemma cfn_call_is_callback:
  "lifecycle_event event u \<Longrightarrow> is_callback u (cfn_call rt event ctx st dat reason)"
  by (simp add: lifecycle_event_def is_callback_def cfn_call_def cfn_request_def
        callback_status_def envelope_field_def cfn_response_body_def)

lemma cfn_call_status:
  "callback_status (cfn_call rt event ctx st dat reason) = Some st"
  by (simp add: cfn_call_def cfn_request_def callback_status_def envelope_field_def
        cfn_response_body_def)







lemma unreachable_perform:
  "perform unreachable_runtime c s =
     (Inl (OtherException ''connection refused''),
      s\<lparr>world := (), clock := clock s + 5000, trace := trace s @ [c]\<rparr>)"
  by (simp add: perform_def unreachable_runtime_def)


lemma send_cfn_calls:
  assumes "send_cfn_response rt event ctx st dat reason s = (r, s')"
  shows "(\<not> lifecycle_event event (the (event ''ResponseURL'')) \<and> s' = s) \<or>
         (lifecycle_event event (the (event ''ResponseURL'')) \<and>
          trace s' = trace s @ [cfn_call rt event ctx st dat reason])"
  using assms
  unfolding send_cfn_response_def cfn_call_def lifecycle_event_def Let_def
  by (auto split: option.splits if_splits prod.splits sum.splits dest: perform_trace)

lemma send_cfn_ignores_request_type:
  "send_cfn_response rt (event(''RequestType'' \<mapsto> t)) ctx st dat reason s =
   send_cfn_response rt event ctx st dat reason s"
  by (simp add: send_cfn_response_def cong: option.case_cong if_cong)

lemma send_cfn_prefix:
  "send_cfn_response rt event ctx st dat reason s = (r, s') \<Longrightarrow> prefix (trace s) (trace s')"
  by (auto dest: send_cfn_calls)

text \<open>
  Claim C4, as amended. For a lifecycle event with RequestType Delete and a response URL,
  the handler makes no backend call at all (no client creation, no API key, no data-source
  request, no fetch, no import), and its first call is the SUCCESS callback with
  \<open>{'Status': 'Deleted'}\<close>. Provided that PUT is answered without error, the handler
  returns and the SUCCESS callback is its only call. When that PUT raises \<open>e\<close>, a FAILED
  callback with \<open>str(e)\<close> follows it.
\<close>

theorem delete_sends_one_success_callback_when_answered:
  assumes ev: "lifecycle_event event u" and del: "event ''RequestType'' = Some ''Delete''"
  shows "filter (\<lambda>c. \<not> is_callback u c) (new_calls s (snd (handler rt event ctx s))) = [] \<and>
         hd (new_calls s (snd (handler rt event ctx s))) =
           cfn_call rt event ctx ''SUCCESS'' (Some [(''Status'', JString ''Deleted'')]) None \<and>
         is_callback u (cfn_call rt event ctx ''SUCCESS'' (Some [(''Status'', JString ''Deleted'')]) None) \<and>
         callback_status (cfn_call rt event ctx ''SUCCESS'' (Some [(''Status'', JString ''Deleted'')]) None)
           = Some ''SUCCESS'' \<and>
         ((\<exists>resp w'. respond rt (cfn_call rt event ctx ''SUCCESS'' (Some [(''Status'', JString ''Deleted'')]) None)
                       (world s) = (Inr resp, w')) \<longrightarrow>
            fst (handler rt event ctx s) = Inr () \<and>
            new_calls s (snd (handler rt event ctx s)) =
              [cfn_call rt event ctx ''SUCCESS'' (Some [(''Status'', JString ''Deleted'')]) None] \<and>
            length (filter (is_callback u) (new_calls s (snd (handler rt event ctx s)))) = 1) \<and>
         (\<forall>e w'. respond rt (cfn_call rt event ctx ''SUCCESS'' (Some [(''Status'', JString ''Deleted'')]) None)
                       (world s) = (Inl e, w') \<longrightarrow>
            new_calls s (snd (handler rt event ctx s)) =
              [cfn_call rt event ctx ''SUCCESS'' (Some [(''Status'', JString ''Deleted'')]) None,
               cfn_call rt event ctx ''FAILED'' None (Some (str_exn e))])"
proof -
  let ?cb = "cfn_call rt event ctx ''SUCCESS'' (Some [(''Status'', JString ''Deleted'')]) None"
  have cb: "is_callback u ?cb" "callback_status ?cb = Some ''SUCCESS''"
    by (simp_all add: cfn_call_is_callback [OF ev] cfn_call_status)
  obtain r1 s1 where p1: "perform rt ?cb s = (r1, s1)" by (cases "perform rt ?cb s")
  have t1: "trace s1 = trace s @ [?cb]" by (rule perform_trace [OF p1])
  have r1: "r1 = fst (respond rt ?cb (world s))" using p1 perform_fst [of rt ?cb s] by simp
  have tr: "handler_try rt event ctx ''Delete'' s =
               (case r1 of Inl e \<Rightarrow> (Inl e, s1) | Inr resp \<Rightarrow> (Inr (), s1))"
    using p1 by (simp add: handler_try_def send_cfn_lifecycle [OF ev] split: sum.splits)
  show ?thesis
  proof (cases r1)
    case (Inr resp)
    with tr del have h: "handler rt event ctx s = (Inr (), s1)"
      by (simp add: handler_def)
    have n: "new_calls s s1 = [?cb]" using t1 by (simp add: new_calls_def)
    show ?thesis using h n cb r1 Inr by auto
  next
    case (Inl e)
    let ?cb2 = "cfn_call rt event ctx ''FAILED'' None (Some (str_exn e))"
    have cb2: "is_callback u ?cb2"
      by (simp add: cfn_call_is_callback [OF ev])
    obtain r2 s2 where p2: "perform rt ?cb2 s1 = (r2, s2)" by (cases "perform rt ?cb2 s1")
    have t2: "trace s2 = trace s @ [?cb, ?cb2]" using perform_trace [OF p2] t1 by simp
    from Inl tr del p2 have h: "snd (handler rt event ctx s) = s2"
      by (simp add: handler_def send_cfn_lifecycle [OF ev] split: sum.splits)
    have n: "new_calls s s2 = [?cb, ?cb2]" using t2 by (simp add: new_calls_def)
    show ?thesis using h n cb cb2 r1 Inl by auto
  qed
qed

theorem delete_sends_one_success_callback_when_answered_witness:
  "lifecycle_event delete_event ''https://cfn.example/cb'' \<and>
   delete_event ''RequestType'' = Some ''Delete'' \<and>
   respond healthy_runtime (cfn_call healthy_runtime delete_event example_context ''SUCCESS''
        (Some [(''Status'', JString ''Deleted'')]) None) (world initial_state)
        = (Inr \<lparr>status = 200, content = ''{}''\<rparr>, ()) \<and>
   fst (handler healthy_runtime delete_event example_context initial_state) = Inr () \<and>
   new_calls initial_state (snd (handler healthy_runtime delete_event example_context initial_state)) =
     [cfn_call healthy_runtime delete_event example_context ''SUCCESS''
        (Some [(''Status'', JString ''Deleted'')]) None]"
proof -
  have ev: "lifecycle_event delete_event ''https://cfn.example/cb''"
    by (simp add: lifecycle_event_def delete_event_def)
  have del: "delete_event ''RequestType'' = Some ''Delete''"
    by (simp add: delete_event_def)
  have ok: "respond healthy_runtime (cfn_call healthy_runtime delete_event example_context ''SUCCESS''
        (Some [(''Status'', JString ''Deleted'')]) None) (world initial_state)
        = (Inr \<lparr>status = 200, content = ''{}''\<rparr>, ())"
    by (simp add: healthy_runtime_def)
  from delete_sends_one_success_callback_when_answered
         [OF ev del, of initial_state healthy_runtime example_context] ok
  have "fst (handler healthy_runtime delete_event example_context initial_state) = Inr () \<and>
   new_calls initial_state (snd (handler healthy_runtime delete_event example_context initial_state)) =
     [cfn_call healthy_runtime delete_event example_context ''SUCCESS''
        (Some [(''Status'', JString ''Deleted'')]) None]"
    by blast
  with ev del ok show ?thesis by (simp only:) 
qed

lemma flaky_perform:
  "perform flaky_runtime c s =
     (if world s then Inr \<lparr>status = 200, content = ''{}''\<rparr>
      else Inl (OtherException ''connection reset''),
      s\<lparr>world := True, clock := clock s, trace := trace s @ [c]\<rparr>)"
  by (simp add: perform_def flaky_runtime_def)

text \<open>
  Claim C4 as stated fails where the SUCCESS callback is not delivered: with a callback
  URL whose first PUT fails and whose second PUT is answered, a Delete event sends the
  SUCCESS callback and then a FAILED callback, two callbacks in all, and returns.
\<close>

theorem delete_second_callback_counterexample:
  "lifecycle_event delete_event ''https://cfn.example/cb'' \<and>
   delete_event ''RequestType'' = Some ''Delete'' \<and>
   fst (handler flaky_runtime delete_event example_context empty_store) = Inr () \<and>
   map callback_status
     (new_calls empty_store (snd (handler flaky_runtime delete_event example_context empty_store)))
     = [Some ''SUCCESS'', Some ''FAILED''] \<and>
   length (filter (is_callback ''https://cfn.example/cb'')
     (new_calls empty_store (snd (handler flaky_runtime delete_event example_context empty_store)))) = 2"
  by (simp add: lifecycle_event_def delete_event_def handler_def handler_try_def
        send_cfn_response_def Let_def flaky_perform new_calls_def empty_store_def
        is_callback_def callback_status_def envelope_field_def cfn_request_def
        cfn_response_body_def)

text \<open>
  Claim C9. The dispatch has two branches. An event without \<open>RequestType\<close> is handled
  exactly as the same event with \<open>RequestType = 'Create'\<close>: the provisioning steps run
  and the handler's trace extends theirs. An event whose \<open>RequestType\<close> is anything but
  Create or Update takes the other branch: no provisioning step runs, every call of the
  handler is a callback, and for a lifecycle event the first one is the SUCCESS callback
  with \<open>{'Status': 'Deleted'}\<close>.
\<close>

theorem handler_dispatch_is_two_way:
  "(event ''RequestType'' = None \<longrightarrow>
      handler rt event ctx s = handler rt (event(''RequestType'' \<mapsto> ''Create'')) ctx s \<and>
      handler_steps rt event s = provision rt s \<and>
      prefix (trace (snd (provision rt s))) (trace (snd (handler rt event ctx s))))
   \<and> (event ''RequestType'' = Some t \<and> t \<noteq> ''Create'' \<and> t \<noteq> ''Update'' \<longrightarrow>
        handler rt event ctx s =
          (case send_cfn_response rt event ctx ''SUCCESS'' (Some [(''Status'', JString ''Deleted'')]) None s of
             (Inr x, s1) \<Rightarrow> (Inr (), s1)
           | (Inl e, s1) \<Rightarrow> send_cfn_response rt event ctx ''FAILED'' None (Some (str_exn e)) s1) \<and>
        handler_steps rt event s = (Inr (), s) \<and>
        (\<forall>c \<in> set (new_calls s (snd (handler rt event ctx s))).
            lifecycle_event event (the (event ''ResponseURL'')) \<and>
            is_callback (the (event ''ResponseURL'')) c) \<and>
        (\<forall>u. lifecycle_event event u \<longrightarrow>
            hd (new_calls s (snd (handler rt event ctx s))) =
              cfn_call rt event ctx ''SUCCESS'' (Some [(''Status'', JString ''Deleted'')]) None))"
proof (intro conjI impI)
  assume none: "event ''RequestType'' = None"
  show "handler rt event ctx s = handler rt (event(''RequestType'' \<mapsto> ''Create'')) ctx s"
    using none
    by (simp add: handler_def handler_try_def send_cfn_ignores_request_type Let_def
             cong: prod.case_cong sum.case_cong)
  show "handler_steps rt event s = provision rt s"
    using none by (simp add: handler_steps_def request_type_of_def)
  obtain r s1 where pv: "provision rt s = (r, s1)" by (cases "provision rt s")
  show "prefix (trace (snd (provision rt s))) (trace (snd (handler rt event ctx s)))"
  proof (cases r)
    case (Inl e)
    with pv none have "handler rt event ctx s =
        send_cfn_response rt event ctx ''FAILED'' None (Some (str_exn e)) s1"
      by (simp add: handler_def handler_try_def)
    then show ?thesis using pv
      by (cases "send_cfn_response rt event ctx ''FAILED'' None (Some (str_exn e)) s1")
         (auto dest: send_cfn_prefix)
  next
    case (Inr x)
    obtain r2 s2 where sd: "send_cfn_response rt event ctx ''SUCCESS''
        (Some [(''Status'', JString ''Provisioned'')]) None s1 = (r2, s2)"
      by (cases "send_cfn_response rt event ctx ''SUCCESS'' (Some [(''Status'', JString ''Provisioned'')]) None s1")
    have p12: "prefix (trace s1) (trace s2)" by (rule send_cfn_prefix [OF sd])
    show ?thesis
    proof (cases r2)
      case (Inr y)
      with pv \<open>r = Inr x\<close> sd none have "handler rt event ctx s = (Inr (), s2)"
        by (simp add: handler_def handler_try_def)
      with pv p12 show ?thesis by simp
    next
      case (Inl e)
      with pv \<open>r = Inr x\<close> sd none have "handler rt event ctx s =
          send_cfn_response rt event ctx ''FAILED'' None (Some (str_exn e)) s2"
        by (simp add: handler_def handler_try_def)
      then have "prefix (trace s2) (trace (snd (handler rt event ctx s)))"
        by (cases "send_cfn_response rt event ctx ''FAILED'' None (Some (str_exn e)) s2")
           (auto dest: send_cfn_prefix)
      with p12 pv show ?thesis by (auto intro: prefix_order.trans)
    qed
  qed
next
  assume other: "event ''RequestType'' = Some t \<and> t \<noteq> ''Create'' \<and> t \<noteq> ''Update''"
  let ?cb = "cfn_call rt event ctx ''SUCCESS'' (Some [(''Status'', JString ''Deleted'')]) None"
  show h: "handler rt event ctx s =
          (case send_cfn_response rt event ctx ''SUCCESS'' (Some [(''Status'', JString ''Deleted'')]) None s of
             (Inr x, s1) \<Rightarrow> (Inr (), s1)
           | (Inl e, s1) \<Rightarrow> send_cfn_response rt event ctx ''FAILED'' None (Some (str_exn e)) s1)"
    using other by (auto simp: handler_def handler_try_def split: prod.splits sum.splits)
  show "handler_steps rt event s = (Inr (), s)"
    using other by (simp add: handler_steps_def request_type_of_def)
  obtain r1 s1 where sd: "send_cfn_response rt event ctx ''SUCCESS''
        (Some [(''Status'', JString ''Deleted'')]) None s = (r1, s1)"
    by (cases "send_cfn_response rt event ctx ''SUCCESS'' (Some [(''Status'', JString ''Deleted'')]) None s")
  let ?lc = "lifecycle_event event (the (event ''ResponseURL''))"
  have c1: "(\<not> ?lc \<and> s1 = s) \<or> (?lc \<and> trace s1 = trace s @ [?cb])"
    by (rule send_cfn_calls [OF sd])
  have shape: "\<exists>cs. new_calls s (snd (handler rt event ctx s)) = cs \<and>
      ((\<not> ?lc \<and> cs = []) \<or> (?lc \<and>
         (cs = [?cb] \<or> (\<exists>e. cs = [?cb, cfn_call rt event ctx ''FAILED'' None (Some (str_exn e))]))))"
  proof (cases r1)
    case (Inr x)
    with h sd have "snd (handler rt event ctx s) = s1" by simp
    with c1 show ?thesis by (auto simp: new_calls_def)
  next
    case (Inl e)
    obtain r2 s2 where sd2: "send_cfn_response rt event ctx ''FAILED'' None (Some (str_exn e)) s1 = (r2, s2)"
      by (cases "send_cfn_response rt event ctx ''FAILED'' None (Some (str_exn e)) s1")
    from send_cfn_calls [OF sd2]
    have c2: "(\<not> ?lc \<and> s2 = s1) \<or>
         (?lc \<and> trace s2 = trace s1 @ [cfn_call rt event ctx ''FAILED'' None (Some (str_exn e))])" .
    from Inl h sd sd2 have "snd (handler rt event ctx s) = s2" by simp
    with c1 c2 show ?thesis by (auto simp: new_calls_def)
  qed
  show "\<forall>c \<in> set (new_calls s (snd (handler rt event ctx s))).
            lifecycle_event event (the (event ''ResponseURL'')) \<and>
            is_callback (the (event ''ResponseURL'')) c"
    using shape by (auto simp: cfn_call_is_callback)
  show "\<forall>u. lifecycle_event event u \<longrightarrow>
            hd (new_calls s (snd (handler rt event ctx s))) = ?cb"
  proof (intro allI impI)
    fix u assume ev: "lifecycle_event event u"
    then have "?lc" by (simp add: lifecycle_event_def)
    with shape show "hd (new_calls s (snd (handler rt event ctx s))) = ?cb" by auto
  qed
qed

theorem handler_dispatch_is_two_way_witness:
  "(create_event(''RequestType'' := None)) ''RequestType'' = None \<and>
   handler healthy_runtime (create_event(''RequestType'' := None)) example_context initial_state =
     handler healthy_runtime ((create_event(''RequestType'' := None))(''RequestType'' \<mapsto> ''Create''))
       example_context initial_state \<and>
   (delete_event(''RequestType'' \<mapsto> ''Replace'')) ''RequestType'' = Some ''Replace'' \<and>
   ''Replace'' \<noteq> ''Create'' \<and> ''Replace'' \<noteq> ''Update'' \<and>
   handler_steps healthy_runtime (delete_event(''RequestType'' \<mapsto> ''Replace'')) initial_state =
     (Inr (), initial_state) \<and>
   hd (new_calls initial_state
        (snd (handler healthy_runtime (delete_event(''RequestType'' \<mapsto> ''Replace''))
                example_context initial_state))) =
     cfn_call healthy_runtime (delete_event(''RequestType'' \<mapsto> ''Replace'')) example_context
       ''SUCCESS'' (Some [(''Status'', JString ''Deleted'')]) None"
proof -
  have a: "(create_event(''RequestType'' := None)) ''RequestType'' = None" by simp
  have b: "(delete_event(''RequestType'' \<mapsto> ''Replace'')) ''RequestType'' = Some ''Replace'' \<and>
           ''Replace'' \<noteq> ''Create'' \<and> ''Replace'' \<noteq> ''Update''" by simp
  have ev: "lifecycle_event (delete_event(''RequestType'' \<mapsto> ''Replace'')) ''https://cfn.example/cb''"
    by (simp add: lifecycle_event_def delete_event_def)
  show ?thesis
    using a b ev
      handler_dispatch_is_two_way [of "create_event(''RequestType'' := None)" healthy_runtime
        example_context initial_state "''Replace''"]
      handler_dispatch_is_two_way [of "delete_event(''RequestType'' \<mapsto> ''Replace'')" healthy_runtime
        example_context initial_state "''Replace''"]
    by blast
qed

lemma new_calls_perform: "perform rt c s = (r, s') \<Longrightarrow> new_calls s s' = [c]"
  by (auto simp: new_calls_def dest: perform_trace)

lemma new_calls_same: "new_calls s s = []"
  by (simp add: new_calls_def)

lemma script_try_trace:
  "script_try rt d s = (r, s') \<Longrightarrow> trace s' = trace s @ [UrlOpen (script_request rt d) (Some 10)]"
  unfolding script_try_def Let_def print_py_def
  by (auto split: prod.splits sum.splits dest: perform_trace)

lemma import_dashboard_script_trace:
  assumes "open_read rt (DASHBOARD_PATH rt) = Inr txt" "json_loads rt txt = Inr d"
  shows "trace (snd (import_dashboard_script rt s)) = trace s @ [UrlOpen (script_request rt d) (Some 10)]"
proof -
  obtain r s1 where t: "script_try rt d s = (r, s1)" by (cases "script_try rt d s")
  from script_try_trace [OF t] have t1: "trace s1 = trace s @ [UrlOpen (script_request rt d) (Some 10)]" .
  show ?thesis
    using assms t t1 unfolding import_dashboard_script_def Let_def print_py_def
    by (auto split: sum.splits exn.splits)
qed




section \<open>The import envelope\<close>

text \<open>
  Claim C3. Whatever the dashboard document is, the import envelope of the handler and
  the one of the standalone script carry it unchanged under \<open>dashboard\<close>, with
  \<open>overwrite = true\<close> and \<open>folderId = 0\<close>; the envelope is the body of the one request
  each importer sends once the text has been parsed, with bearer authentication in the
  handler and basic authentication in the script.
\<close>

theorem import_envelope_forces_overwrite_and_root_folder:
  "member (import_payload d) ''overwrite'' = Some (JBool True) \<and>
   member (import_payload d) ''folderId'' = Some (JInt 0) \<and>
   member (import_payload d) ''dashboard'' = Some d \<and>
   member (script_payload d) ''overwrite'' = Some (JBool True) \<and>
   member (script_payload d) ''folderId'' = Some (JInt 0) \<and>
   member (script_payload d) ''dashboard'' = Some d \<and>
   (json_loads rt txt = Inr d \<longrightarrow>
      new_calls s (snd (import_dashboard rt g k txt s)) = [UrlOpen (import_request g k d) None] \<and>
      data (import_request g k d) = Some (import_payload d) \<and>
      map_of (headers (import_request g k d)) ''Authorization'' = Some (''Bearer '' @ k)) \<and>
   (open_read rt (DASHBOARD_PATH rt) = Inr txt \<and> json_loads rt txt = Inr d \<longrightarrow>
      new_calls s (snd (import_dashboard_script rt s)) = [UrlOpen (script_request rt d) (Some 10)] \<and>
      data (script_request rt d) = Some (script_payload d) \<and>
      map_of (headers (script_request rt d)) ''Authorization'' =
        Some (''Basic '' @ b64encode rt (GRAFANA_USER rt @ '':'' @ GRAFANA_PASS rt)))"
proof -
  obtain r1 s1 where p1: "perform rt (UrlOpen (import_request g k d) None) s = (r1, s1)"
    by (cases "perform rt (UrlOpen (import_request g k d) None) s")
  have a: "json_loads rt txt = Inr d \<Longrightarrow>
      new_calls s (snd (import_dashboard rt g k txt s)) = [UrlOpen (import_request g k d) None]"
    using p1 new_calls_perform [OF p1]
    by (auto simp: import_dashboard_def split: sum.splits)
  have b: "open_read rt (DASHBOARD_PATH rt) = Inr txt \<Longrightarrow> json_loads rt txt = Inr d \<Longrightarrow>
      new_calls s (snd (import_dashboard_script rt s)) = [UrlOpen (script_request rt d) (Some 10)]"
    using import_dashboard_script_trace [of rt "txt" d s] by (simp add: new_calls_def)
  show ?thesis
    using a b
    by (simp add: import_payload_def script_payload_def import_request_def script_request_def
          bearer_headers_def)
qed

theorem import_envelope_forces_overwrite_and_root_folder_witness:
  "json_loads healthy_runtime ''{}'' = Inr (JObject []) \<and>
   open_read healthy_runtime (DASHBOARD_PATH healthy_runtime) = Inr ''{}'' \<and>
   new_calls initial_state (snd (import_dashboard healthy_runtime ''https://g-1.grafana'' ''key'' ''{}'' initial_state))
     = [UrlOpen (import_request ''https://g-1.grafana'' ''key'' (JObject [])) None] \<and>
   new_calls initial_state (snd (import_dashboard_script healthy_runtime initial_state))
     = [UrlOpen (script_request healthy_runtime (JObject [])) (Some 10)] \<and>
   member (import_payload (JObject [])) ''overwrite'' = Some (JBool True) \<and>
   member (script_payload (JObject [])) ''folderId'' = Some (JInt 0)"
proof -
  have a: "json_loads healthy_runtime ''{}'' = Inr (JObject [])"
    by (simp add: healthy_runtime_def)
  have b: "open_read healthy_runtime (DASHBOARD_PATH healthy_runtime) = Inr ''{}''"
    by (simp add: healthy_runtime_def)
  show ?thesis
    using a b import_envelope_forces_overwrite_and_root_folder
      [of "JObject []" healthy_runtime "''{}''" initial_state "''https://g-1.grafana''" "''key''"]
    by blast
qed




lemma ensure_cases:
  assumes p: "perform rt (UrlOpen (datasource_put g k reg amp) None) s = (r0, s0)"
  shows "ensure_prom_datasource rt g k reg amp s =
           (if falls_back r0 then
              (case perform rt (UrlOpen (datasource_post g k reg amp) None) s0 of
                 (Inl e, s2) \<Rightarrow> (Inl e, s2)
               | (Inr resp, s2) \<Rightarrow> (Inr (), s2))
            else (map_sum id (\<lambda>resp. ()) r0, s0))"
  using p unfolding ensure_prom_datasource_def Let_def falls_back_def
  by (auto split: sum.splits exn.splits prod.splits)

section \<open>The data-source upsert\<close>

text \<open>
  Claim C2. \<open>ensure_prom_datasource\<close> first sends the PUT to \<open>/api/datasources/uid/prom\<close>.
  It sends the POST to \<open>/api/datasources\<close> after it if and only if the PUT raised an
  HTTPError with code 404 or 400; then its outcome is the outcome of the POST. Otherwise
  the PUT is its only call and its outcome is the outcome of the PUT: success, or the
  error handed on to the caller. Against a backend that keeps the data source, the first
  call succeeds whether or not the data source existed, and a second call right after it
  succeeds with the PUT alone.
\<close>

theorem ensure_prom_datasource_upsert:
  "(falls_back (fst (respond rt (UrlOpen (datasource_put g k reg amp) None) (world s))) \<longleftrightarrow>
      (\<exists>msg body. fst (respond rt (UrlOpen (datasource_put g k reg amp) None) (world s))
                     \<in> {Inl (HTTPError 404 msg body), Inl (HTTPError 400 msg body)})) \<and>
   new_calls s (snd (ensure_prom_datasource rt g k reg amp s)) =
     (if falls_back (fst (respond rt (UrlOpen (datasource_put g k reg amp) None) (world s)))
      then [UrlOpen (datasource_put g k reg amp) None, UrlOpen (datasource_post g k reg amp) None]
      else [UrlOpen (datasource_put g k reg amp) None]) \<and>
   http_method (datasource_put g k reg amp) = ''PUT'' \<and>
   url (datasource_put g k reg amp) = g @ ''/api/datasources/uid/prom'' \<and>
   http_method (datasource_post g k reg amp) = ''POST'' \<and>
   url (datasource_post g k reg amp) = g @ ''/api/datasources'' \<and>
   (\<not> falls_back (fst (respond rt (UrlOpen (datasource_put g k reg amp) None) (world s))) \<longrightarrow>
      fst (ensure_prom_datasource rt g k reg amp s) =
        map_sum id (\<lambda>resp. ()) (fst (respond rt (UrlOpen (datasource_put g k reg amp) None) (world s)))) \<and>
   (falls_back (fst (respond rt (UrlOpen (datasource_put g k reg amp) None) (world s))) \<longrightarrow>
      fst (ensure_prom_datasource rt g k reg amp s) =
        map_sum id (\<lambda>resp. ())
          (fst (respond rt (UrlOpen (datasource_post g k reg amp) None)
                  (snd (respond rt (UrlOpen (datasource_put g k reg amp) None) (world s)))))) \<and>
   (datasource_store rt has (UrlOpen (datasource_put g k reg amp) None)
        (UrlOpen (datasource_post g k reg amp) None) \<longrightarrow>
      fst (ensure_prom_datasource rt g k reg amp s) = Inr () \<and>
      has (world (snd (ensure_prom_datasource rt g k reg amp s))) \<and>
      fst (ensure_prom_datasource rt g k reg amp (snd (ensure_prom_datasource rt g k reg amp s))) = Inr () \<and>
      new_calls (snd (ensure_prom_datasource rt g k reg amp s))
        (snd (ensure_prom_datasource rt g k reg amp (snd (ensure_prom_datasource rt g k reg amp s))))
        = [UrlOpen (datasource_put g k reg amp) None])"
proof -
  let ?put = "UrlOpen (datasource_put g k reg amp) None"
  let ?post = "UrlOpen (datasource_post g k reg amp) None"
  let ?ens = "ensure_prom_datasource rt g k reg amp"
  obtain r0 s0 where p: "perform rt ?put s = (r0, s0)" by (cases "perform rt ?put s")
  have r0: "r0 = fst (respond rt ?put (world s))" using perform_fst [of rt ?put s] p by simp
  have w0: "world s0 = snd (respond rt ?put (world s))"
    using p by (auto simp: perform_def split: prod.splits)
  obtain r1 s1 where q: "perform rt ?post s0 = (r1, s1)" by (cases "perform rt ?post s0")
  have r1: "r1 = fst (respond rt ?post (world s0))" using perform_fst [of rt ?post s0] q by simp
  have t0: "trace s0 = trace s @ [?put]" by (rule perform_trace [OF p])
  have t1: "trace s1 = trace s @ [?put, ?post]" using perform_trace [OF q] t0 by simp
  have fb: "falls_back r0 \<longleftrightarrow>
      (\<exists>msg body. r0 \<in> {Inl (HTTPError 404 msg body), Inl (HTTPError 400 msg body)})"
    by (auto simp: falls_back_def split: sum.splits exn.splits)
  have calls: "new_calls s (snd (?ens s)) = (if falls_back r0 then [?put, ?post] else [?put])"
    using ensure_cases [OF p] q t0 t1 by (auto simp: new_calls_def split: sum.splits)
  have direct: "\<not> falls_back r0 \<Longrightarrow> fst (?ens s) = map_sum id (\<lambda>resp. ()) r0"
    using ensure_cases [OF p] by simp
  have fallback: "falls_back r0 \<Longrightarrow> fst (?ens s) = map_sum id (\<lambda>resp. ()) r1"
    using ensure_cases [OF p] q by (auto split: sum.splits)
  have store: "fst (?ens s) = Inr () \<and> has (world (snd (?ens s))) \<and>
      fst (?ens (snd (?ens s))) = Inr () \<and> new_calls (snd (?ens s)) (snd (?ens (snd (?ens s)))) = [?put]"
    if st: "datasource_store rt has ?put ?post"
  proof -
    have upd: "fst (?ens x) = Inr () \<and> has (world (snd (?ens x))) \<and> new_calls x (snd (?ens x)) = [?put]"
      if h: "has (world x)" for x
    proof -
      from st h obtain resp w' where a: "respond rt ?put (world x) = (Inr resp, w')" "has w'"
        unfolding datasource_store_def by blast
      obtain sx where px: "perform rt ?put x = (Inr resp, sx)" "world sx = w'"
        using a by (simp add: perform_def)
      show ?thesis
        using ensure_cases [OF px(1)] px(2) a(2) new_calls_perform [OF px(1)]
        by (simp add: falls_back_def)
    qed
    have first: "fst (?ens s) = Inr () \<and> has (world (snd (?ens s)))"
    proof (cases "has (world s)")
      case True
      with upd show ?thesis by blast
    next
      case False
      with st obtain msg body w' resp w'' where
        a: "respond rt ?put (world s) = (Inl (HTTPError 404 msg body), w')" and
        b: "respond rt ?post w' = (Inr resp, w'')" "has w''"
        unfolding datasource_store_def by blast
      from a r0 w0 have "r0 = Inl (HTTPError 404 msg body)" "world s0 = w'" by simp_all
      moreover from this b q have "r1 = Inr resp" "world s1 = w''"
        by (auto simp: perform_def split: prod.splits)
      ultimately show ?thesis
        using ensure_cases [OF p] q b(2) by (simp add: falls_back_def)
    qed
    with upd [of "snd (?ens s)"] show ?thesis by blast
  qed
  show ?thesis
    using fb calls direct fallback store r0 r1 w0
    by (simp add: datasource_put_def datasource_post_def)
qed

theorem ensure_prom_datasource_upsert_witness:
  "datasource_store store_runtime (\<lambda>w. w)
     (UrlOpen (datasource_put ''https://g-1.grafana'' ''key'' ''eu-west-1'' ''ws-1'') None)
     (UrlOpen (datasource_post ''https://g-1.grafana'' ''key'' ''eu-west-1'' ''ws-1'') None) \<and>
   falls_back (fst (respond store_runtime
     (UrlOpen (datasource_put ''https://g-1.grafana'' ''key'' ''eu-west-1'' ''ws-1'') None) (world empty_store))) \<and>
   new_calls empty_store
     (snd (ensure_prom_datasource store_runtime ''https://g-1.grafana'' ''key'' ''eu-west-1'' ''ws-1'' empty_store))
     = [UrlOpen (datasource_put ''https://g-1.grafana'' ''key'' ''eu-west-1'' ''ws-1'') None,
        UrlOpen (datasource_post ''https://g-1.grafana'' ''key'' ''eu-west-1'' ''ws-1'') None] \<and>
   fst (ensure_prom_datasource store_runtime ''https://g-1.grafana'' ''key'' ''eu-west-1'' ''ws-1'' empty_store)
     = Inr () \<and>
   fst (ensure_prom_datasource store_runtime ''https://g-1.grafana'' ''key'' ''eu-west-1'' ''ws-1''
         (snd (ensure_prom_datasource store_runtime ''https://g-1.grafana'' ''key'' ''eu-west-1'' ''ws-1''
                 empty_store))) = Inr ()"
proof -
  have st: "datasource_store store_runtime (\<lambda>w. w)
     (UrlOpen (datasource_put ''https://g-1.grafana'' ''key'' ''eu-west-1'' ''ws-1'') None)
     (UrlOpen (datasource_post ''https://g-1.grafana'' ''key'' ''eu-west-1'' ''ws-1'') None)"
    by (auto simp: datasource_store_def store_runtime_def datasource_put_def datasource_post_def)
  have fb: "falls_back (fst (respond store_runtime
     (UrlOpen (datasource_put ''https://g-1.grafana'' ''key'' ''eu-west-1'' ''ws-1'') None) (world empty_store)))"
    by (simp add: falls_back_def store_runtime_def datasource_put_def empty_store_def)
  show ?thesis
    using st fb ensure_prom_datasource_upsert [of store_runtime "''https://g-1.grafana''" "''key''"
        "''eu-west-1''" "''ws-1''" empty_store "\<lambda>w. w"]
    by simp
qed

section \<open>The configured locators\<close>

lemma split_py_nonempty: "split_py c s \<noteq> []"
  by (induction s) (auto split: list.splits)

lemma join_split_py: "join_py c (split_py c s) = s"
proof (induction s)
  case Nil
  then show ?case by simp
next
  case (Cons x s)
  obtain p ps where sp: "split_py c s = p # ps"
    using split_py_nonempty [of c s] by (cases "split_py c s") auto
  with Cons show ?case by (cases ps) auto
qed

lemma split_py_no_sep: "p \<in> set (split_py c s) \<Longrightarrow> c \<notin> set p"
proof (induction s arbitrary: p)
  case Nil
  then show ?case by simp
next
  case (Cons x s)
  obtain q qs where sp: "split_py c s = q # qs"
    using split_py_nonempty [of c s] by (cases "split_py c s") auto
  with Cons show ?case by (auto split: if_splits)
qed

lemma split_py_append: "split_py c (a @ c # b) = split_py c a @ split_py c b"
proof (induction a)
  case Nil
  then show ?case by simp
next
  case (Cons x a)
  obtain q qs where sp: "split_py c a = q # qs"
    using split_py_nonempty [of c a] by (cases "split_py c a") auto
  with Cons show ?case by simp
qed

lemma dashboard_uris_append:
  "dashboard_uris (a @ CHR '','' # b) = dashboard_uris a @ dashboard_uris b"
  by (simp add: dashboard_uris_def split_py_append)

lemma dashboard_uris_single:
  "CHR '','' \<notin> set a \<Longrightarrow> dashboard_uris a = (if strip a = [] then [] else [strip a])"
proof -
  assume "CHR '','' \<notin> set a"
  then have "split_py CHR '','' a = [a]" by (induction a) auto
  then show ?thesis by (simp add: dashboard_uris_def)
qed

lemma rev_dropWhile_takeWhile:
  "rev (dropWhile P (rev xs)) @ rev (takeWhile P (rev xs)) = xs"
proof -
  have "rev (rev (dropWhile P (rev xs)) @ rev (takeWhile P (rev xs))) = rev xs" by simp
  then show ?thesis by (simp only: rev_is_rev_conv)
qed

lemma strip_decomposition:
  "\<exists>l r. p = l @ strip p @ r \<and> (\<forall>c \<in> set l. isspace c) \<and> (\<forall>c \<in> set r. isspace c)"
proof -
  let ?l = "takeWhile isspace p"
  let ?y = "dropWhile isspace p"
  let ?r = "rev (takeWhile isspace (rev ?y))"
  have y: "strip p @ ?r = ?y"
    unfolding strip_def rstrip_def lstrip_def by (rule rev_dropWhile_takeWhile)
  have "p = ?l @ ?y" by simp
  with y have "p = ?l @ strip p @ ?r" by simp
  moreover have "\<forall>c \<in> set ?l. isspace c" by (auto dest: set_takeWhileD)
  moreover have "\<forall>c \<in> set ?r. isspace c" by (auto dest: set_takeWhileD)
  ultimately show ?thesis by blast
qed

lemma strip_ends:
  assumes "strip p \<noteq> []"
  shows "\<not> isspace (hd (strip p)) \<and> \<not> isspace (last (strip p))"
proof -
  let ?y = "dropWhile isspace p"
  let ?z = "dropWhile isspace (rev ?y)"
  have s: "strip p = rev ?z" by (simp add: strip_def rstrip_def lstrip_def)
  with assms have z: "?z \<noteq> []" by simp
  then have "\<not> isspace (hd ?z)" by (rule hd_dropWhile)
  then have l: "\<not> isspace (last (strip p))" using s z by (simp add: last_rev)
  have y: "?y \<noteq> []"
  proof
    assume "?y = []"
    then have "?z = []" by (simp only: rev.simps dropWhile.simps)
    with z show False by (simp only:)
  qed
  then have ny: "\<not> isspace (hd ?y)" by (rule hd_dropWhile)
  have "strip p @ rev (takeWhile isspace (rev ?y)) = ?y"
    unfolding strip_def rstrip_def lstrip_def by (rule rev_dropWhile_takeWhile)
  then have "hd ?y = hd (strip p @ rev (takeWhile isspace (rev ?y)))" by simp
  also have "\<dots> = hd (strip p)" using assms by (rule hd_append2)
  finally have "hd ?y = hd (strip p)" .
  with ny l show ?thesis by simp
qed

lemma dashboard_uris_not_blank: "[] \<notin> set (dashboard_uris s)"
  by (simp add: dashboard_uris_def)

lemma dashboard_uris_example:
  "dashboard_uris ''s3://b/a.json, ,s3://b/c.json'' = [''s3://b/a.json'', ''s3://b/c.json'']"
  by (simp add: dashboard_uris_def strip_def lstrip_def rstrip_def isspace_def)

lemma import_uris_append:
  "import_uris rt s3 ep k (xs @ ys) s =
     (case import_uris rt s3 ep k xs s of
        (Inl e, s1) \<Rightarrow> (Inl e, s1)
      | (Inr u, s1) \<Rightarrow> import_uris rt s3 ep k ys s1)"
  by (induction xs arbitrary: s) (auto split: prod.splits sum.splits)

lemma partition_py_scheme:
  "prefix ''s3://'' uri \<Longrightarrow> partition_py ''s3://'' uri = ([], ''s3://'', drop 5 uri)"
  by (auto simp: prefix_def)

lemma get_dashboard_json_trace:
  assumes "get_dashboard_json rt s3 uri s = (r, s1)"
  shows "trace s1 = trace s @ (if prefix ''s3://'' uri then [locator_call s3 uri] else [])"
proof (cases "prefix ''s3://'' uri")
  case False
  with assms show ?thesis by (simp add: get_dashboard_json_def)
next
  case True
  then have ne: "uri \<noteq> []" by auto
  obtain bucket sep key where pk: "partition_py ''/'' (drop 5 uri) = (bucket, sep, key)"
    by (cases "partition_py ''/'' (drop 5 uri)")
  obtain r0 s0 where p: "perform rt (GetObject s3 bucket key) s = (r0, s0)"
    by (cases "perform rt (GetObject s3 bucket key) s")
  from assms True ne pk p have "s1 = s0"
    by (auto simp: get_dashboard_json_def partition_py_scheme split: sum.splits)
  with perform_trace [OF p] True pk show ?thesis by (simp add: locator_call_def)
qed

lemma import_dashboard_trace:
  assumes "import_dashboard rt g k j s = (r, s')"
  shows "\<exists>cs. trace s' = trace s @ cs \<and> filter is_get_object cs = []"
proof (cases "json_loads rt j")
  case (Inl e)
  with assms show ?thesis by (simp add: import_dashboard_def)
next
  case (Inr d)
  obtain r0 s0 where p: "perform rt (UrlOpen (import_request g k d) None) s = (r0, s0)"
    by (cases "perform rt (UrlOpen (import_request g k d) None) s")
  from assms Inr p have "s' = s0" by (auto simp: import_dashboard_def split: sum.splits)
  with perform_trace [OF p] show ?thesis by simp
qed

lemma import_uri_fetches:
  assumes "import_uri rt s3 ep k uri s = (r, s')"
  shows "\<exists>cs. trace s' = trace s @ cs \<and>
           filter is_get_object cs = (if prefix ''s3://'' uri then [locator_call s3 uri] else [])"
proof -
  obtain r1 s1 where g: "get_dashboard_json rt s3 uri s = (r1, s1)"
    by (cases "get_dashboard_json rt s3 uri s")
  have t1: "trace s1 = trace s @ (if prefix ''s3://'' uri then [locator_call s3 uri] else [])"
    by (rule get_dashboard_json_trace [OF g])
  have lc: "filter is_get_object (if prefix ''s3://'' uri then [locator_call s3 uri] else []) =
              (if prefix ''s3://'' uri then [locator_call s3 uri] else [])"
    by (simp add: locator_call_def split: prod.splits)
  show ?thesis
  proof (cases "\<exists>body. r1 = Inr (Some body) \<and> body \<noteq> []")
    case False
    with assms g have "s' = s1"
      by (auto simp: import_uri_def split: sum.splits option.splits if_splits)
    with t1 lc show ?thesis by simp
  next
    case True
    then obtain body where b: "r1 = Inr (Some body)" "body \<noteq> []" by blast
    with assms g have "import_dashboard rt ep k body s1 = (r, s')"
      by (simp add: import_uri_def)
    from import_dashboard_trace [OF this] obtain cs where
      "trace s' = trace s1 @ cs" "filter is_get_object cs = []" by blast
    with t1 lc show ?thesis by simp
  qed
qed

lemma import_uris_fetches:
  "import_uris rt s3 ep k uris s = (r, s') \<Longrightarrow>
     \<exists>cs. trace s' = trace s @ cs \<and>
       prefix (filter is_get_object cs) (map (locator_call s3) (filter (prefix ''s3://'') uris)) \<and>
       (r = Inr () \<longrightarrow>
          filter is_get_object cs = map (locator_call s3) (filter (prefix ''s3://'') uris))"
proof (induction uris arbitrary: s)
  case Nil
  then show ?case by simp
next
  case (Cons uri uris)
  obtain r1 s1 where one: "import_uri rt s3 ep k uri s = (r1, s1)"
    by (cases "import_uri rt s3 ep k uri s")
  from import_uri_fetches [OF one] obtain cs1 where
    c1: "trace s1 = trace s @ cs1"
        "filter is_get_object cs1 = (if prefix ''s3://'' uri then [locator_call s3 uri] else [])"
    by blast
  show ?case
  proof (cases r1)
    case (Inl e)
    with Cons.prems one have "r = Inl e" "s' = s1" by simp_all
    with c1 show ?thesis by auto
  next
    case (Inr x)
    with Cons.prems one have "import_uris rt s3 ep k uris s1 = (r, s')" by simp
    from Cons.IH [OF this] obtain cs2 where
      c2: "trace s' = trace s1 @ cs2"
          "prefix (filter is_get_object cs2) (map (locator_call s3) (filter (prefix ''s3://'') uris))"
          "r = Inr () \<longrightarrow>
             filter is_get_object cs2 = map (locator_call s3) (filter (prefix ''s3://'') uris)"
      by blast
    have "trace s' = trace s @ (cs1 @ cs2)" using c1 c2 by simp
    moreover have "prefix (filter is_get_object (cs1 @ cs2))
        (map (locator_call s3) (filter (prefix ''s3://'') (uri # uris)))"
      using c1(2) c2(2) by simp
    moreover have "r = Inr () \<longrightarrow> filter is_get_object (cs1 @ cs2) =
        map (locator_call s3) (filter (prefix ''s3://'') (uri # uris))"
      using c1(2) c2(3) by simp
    ultimately show ?thesis by blast
  qed
qed

lemma get_dashboard_json_scheme:
  assumes "prefix ''s3://'' uri"
  shows "get_dashboard_json rt s3 uri s =
           (case perform rt (locator_call s3 uri) s of
              (Inl e, s') \<Rightarrow> (Inl e, s')
            | (Inr obj, s') \<Rightarrow> (Inr (Some (content obj)), s'))"
proof -
  from assms have ne: "uri \<noteq> []" by auto
  obtain bucket sep key where pk: "partition_py ''/'' (drop 5 uri) = (bucket, sep, key)"
    by (cases "partition_py ''/'' (drop 5 uri)")
  with assms ne show ?thesis
    by (simp add: get_dashboard_json_def partition_py_scheme locator_call_def)
qed

lemma new_calls_append:
  "trace s1 = trace s @ cs \<Longrightarrow> trace s2 = trace s1 @ ds \<Longrightarrow>
     new_calls s s2 = new_calls s s1 @ new_calls s1 s2"
  by (simp add: new_calls_def)

lemma import_dashboard_calls:
  "new_calls s (snd (import_dashboard rt g k j s)) =
     (case json_loads rt j of Inl e \<Rightarrow> [] | Inr d \<Rightarrow> [UrlOpen (import_request g k d) None])"
proof (cases "json_loads rt j")
  case (Inl e)
  then show ?thesis by (simp add: import_dashboard_def new_calls_def)
next
  case (Inr d)
  obtain r0 s0 where p: "perform rt (UrlOpen (import_request g k d) None) s = (r0, s0)"
    by (cases "perform rt (UrlOpen (import_request g k d) None) s")
  from Inr p have "snd (import_dashboard rt g k j s) = s0"
    by (auto simp: import_dashboard_def split: sum.splits)
  with new_calls_perform [OF p] Inr show ?thesis by simp
qed

lemma import_uri_calls:
  "new_calls s (snd (import_uri rt s3 ep k uri s)) = locator_calls rt s3 ep k uri (world s)"
proof (cases "prefix ''s3://'' uri")
  case False
  then show ?thesis
    by (simp add: import_uri_def get_dashboard_json_def locator_calls_def new_calls_def)
next
  case True
  let ?c = "locator_call s3 uri"
  obtain r0 s0 where p: "perform rt ?c s = (r0, s0)" by (cases "perform rt ?c s")
  have r0: "fst (respond rt ?c (world s)) = r0" using perform_fst [of rt ?c s] p by simp
  have t0: "trace s0 = trace s @ [?c]" by (rule perform_trace [OF p])
  have n0: "new_calls s s0 = [?c]" by (rule new_calls_perform [OF p])
  show ?thesis
  proof (cases r0)
    case (Inl e)
    with p True have "snd (import_uri rt s3 ep k uri s) = s0"
      by (simp add: import_uri_def get_dashboard_json_scheme)
    with n0 True r0 Inl show ?thesis by (simp add: locator_calls_def)
  next
    case (Inr obj)
    show ?thesis
    proof (cases "content obj = []")
      case True
      with p \<open>prefix ''s3://'' uri\<close> Inr have "snd (import_uri rt s3 ep k uri s) = s0"
        by (simp add: import_uri_def get_dashboard_json_scheme)
      with n0 \<open>prefix ''s3://'' uri\<close> r0 Inr True show ?thesis by (simp add: locator_calls_def)
    next
      case False
      with p \<open>prefix ''s3://'' uri\<close> Inr
      have iu: "import_uri rt s3 ep k uri s = import_dashboard rt ep k (content obj) s0"
        by (simp add: import_uri_def get_dashboard_json_scheme)
      obtain r1 s1 where d: "import_dashboard rt ep k (content obj) s0 = (r1, s1)"
        by (cases "import_dashboard rt ep k (content obj) s0")
      from import_dashboard_trace [OF d] obtain ds where ds: "trace s1 = trace s0 @ ds" by blast
      have "new_calls s s1 = new_calls s s0 @ new_calls s0 s1"
        using t0 ds by (rule new_calls_append)
      with n0 import_dashboard_calls [of s0 rt ep k "content obj"] d iu
      show ?thesis
        using \<open>prefix ''s3://'' uri\<close> r0 Inr False by (simp add: locator_calls_def)
    qed
  qed
qed

lemma import_uri_extends:
  "\<exists>cs. trace (snd (import_uri rt s3 ep k uri s)) = trace s @ cs"
proof -
  obtain r s' where a: "import_uri rt s3 ep k uri s = (r, s')" by (cases "import_uri rt s3 ep k uri s")
  from import_uri_fetches [OF a] show ?thesis using a by auto
qed

lemma import_uris_extends:
  "\<exists>cs. trace (snd (import_uris rt s3 ep k uris s)) = trace s @ cs"
proof -
  obtain r s' where a: "import_uris rt s3 ep k uris s = (r, s')" by (cases "import_uris rt s3 ep k uris s")
  from import_uris_fetches [OF a] show ?thesis using a by auto
qed

lemma import_uris_calls_cons:
  "new_calls s (snd (import_uris rt s3 ep k (uri # uris) s)) =
     new_calls s (snd (import_uri rt s3 ep k uri s)) @
     (case fst (import_uri rt s3 ep k uri s) of
        Inl e \<Rightarrow> []
      | Inr x \<Rightarrow> new_calls (snd (import_uri rt s3 ep k uri s))
                   (snd (import_uris rt s3 ep k uris (snd (import_uri rt s3 ep k uri s)))))"
proof -
  obtain r1 s1 where one: "import_uri rt s3 ep k uri s = (r1, s1)"
    by (cases "import_uri rt s3 ep k uri s")
  from import_uri_extends [of rt s3 ep k uri s] one obtain cs where cs: "trace s1 = trace s @ cs"
    by auto
  show ?thesis
  proof (cases r1)
    case (Inl e)
    with one show ?thesis by simp
  next
    case (Inr x)
    from import_uris_extends [of rt s3 ep k uris s1] obtain ds where
      ds: "trace (snd (import_uris rt s3 ep k uris s1)) = trace s1 @ ds" by blast
    have "new_calls s (snd (import_uris rt s3 ep k uris s1)) =
          new_calls s s1 @ new_calls s1 (snd (import_uris rt s3 ep k uris s1))"
      using cs ds by (rule new_calls_append)
    with one Inr show ?thesis by simp
  qed
qed

lemma provision_runs_loop:
  assumes "environ rt ''AWS_REGION'' = Some region"
    and "environ rt ''GRAFANA_WORKSPACE_ID'' = Some workspace_id"
    and "environ rt ''GRAFANA_ENDPOINT'' = Some endpoint"
    and "environ rt ''AMP_WORKSPACE_ID'' = Some amp"
    and "perform rt (Boto3Client ''grafana'' region) s = (Inr g, s1)"
    and "perform rt (Boto3Client ''s3'' region) s1 = (Inr c, s2)"
    and "perform rt (CreateWorkspaceApiKey region ''cdk-provision'' ''ADMIN'' 3600 workspace_id) s2
           = (Inr key_resp, s3)"
    and "ensure_prom_datasource rt endpoint (content key_resp) region amp s3 = (Inr (), s4)"
  shows "provision rt s =
           import_uris rt region endpoint (content key_resp)
             (dashboard_uris (case environ rt ''DASHBOARD_URIS'' of None \<Rightarrow> [] | Some v \<Rightarrow> v)) s4"
  using assms by (simp add: provision_def Let_def)

lemma handler_extends_provision:
  assumes rt: "request_type_of event \<in> {''Create'', ''Update''}"
  shows "prefix (trace (snd (provision rt s))) (trace (snd (handler rt event ctx s)))"
proof -
  obtain r s1 where pv: "provision rt s = (r, s1)" by (cases "provision rt s")
  have sendp: "\<And>st dat reason x. prefix (trace x)
      (trace (snd (send_cfn_response rt event ctx st dat reason x)))"
  proof -
    fix st dat reason x
    obtain r' x' where "send_cfn_response rt event ctx st dat reason x = (r', x')"
      by (cases "send_cfn_response rt event ctx st dat reason x")
    then show "prefix (trace x) (trace (snd (send_cfn_response rt event ctx st dat reason x)))"
      by (auto dest: send_cfn_prefix)
  qed
  show ?thesis
  proof (cases r)
    case (Inl e)
    with pv rt have "handler rt event ctx s =
        send_cfn_response rt event ctx ''FAILED'' None (Some (str_exn e)) s1"
      by (auto simp: handler_def handler_try_def request_type_of_def Let_def)
    with pv sendp [of s1] show ?thesis by simp
  next
    case (Inr x)
    obtain r2 s2 where sd: "send_cfn_response rt event ctx ''SUCCESS''
        (Some [(''Status'', JString ''Provisioned'')]) None s1 = (r2, s2)"
      by (cases "send_cfn_response rt event ctx ''SUCCESS'' (Some [(''Status'', JString ''Provisioned'')]) None s1")
    have p12: "prefix (trace s1) (trace s2)" by (rule send_cfn_prefix [OF sd])
    show ?thesis
    proof (cases r2)
      case (Inr y)
      with pv \<open>r = Inr x\<close> sd rt have "handler rt event ctx s = (Inr (), s2)"
        by (auto simp: handler_def handler_try_def request_type_of_def Let_def)
      with pv p12 show ?thesis by simp
    next
      case (Inl e)
      with pv \<open>r = Inr x\<close> sd rt have "handler rt event ctx s =
          send_cfn_response rt event ctx ''FAILED'' None (Some (str_exn e)) s2"
        by (auto simp: handler_def handler_try_def request_type_of_def Let_def)
      with sendp [of s2] have "prefix (trace s2) (trace (snd (handler rt event ctx s)))" by simp
      with p12 pv show ?thesis by (auto intro: prefix_order.trans)
    qed
  qed
qed

text \<open>
  Claim C6. The handler cuts \<open>DASHBOARD_URIS\<close> at its commas (the pieces hold no comma
  and joined by commas give the value back), strips each piece (what is removed on both
  sides is whitespace, and what remains neither starts nor ends with whitespace) and
  drops the empty results; the locators of a value \<open>a,b\<close> are those of \<open>a\<close> followed by
  those of \<open>b\<close>, and for \<open>"s3://b/a.json, ,s3://b/c.json"\<close> they are \<open>a.json\<close> and then
  \<open>c.json\<close>. Once the environment is read and the clients, the API key and the data
  source are there, the provisioning steps are the loop over exactly these locators, in
  this order, and the handler's trace extends theirs for Create and Update. Processing one
  locator calls the fetch and then the import of the fetched text, and nothing else. The
  calls of the loop over \<open>uri # uris\<close> are those of \<open>uri\<close> followed, unless it raised, by
  those of the loop over \<open>uris\<close> from the state it left; the fetches of a run are, in
  order, a prefix of the fetches of the locators starting with \<open>s3://\<close>, and all of them
  when the loop returns.
\<close>

theorem handler_processes_dashboard_uris_left_to_right:
  "join_py CHR '','' (split_py CHR '','' s3_uris) = s3_uris \<and>
   (\<forall>p \<in> set (split_py CHR '','' s3_uris). CHR '','' \<notin> set p) \<and>
   dashboard_uris s3_uris = filter (\<lambda>u. u \<noteq> []) (map strip (split_py CHR '','' s3_uris)) \<and>
   (\<forall>p. \<exists>l r. p = l @ strip p @ r \<and> (\<forall>c \<in> set l. isspace c) \<and> (\<forall>c \<in> set r. isspace c)) \<and>
   (\<forall>p. strip p \<noteq> [] \<longrightarrow> \<not> isspace (hd (strip p)) \<and> \<not> isspace (last (strip p))) \<and>
   [] \<notin> set (dashboard_uris s3_uris) \<and>
   dashboard_uris (a @ CHR '','' # b) = dashboard_uris a @ dashboard_uris b \<and>
   dashboard_uris ''s3://b/a.json, ,s3://b/c.json'' = [''s3://b/a.json'', ''s3://b/c.json''] \<and>
   (environ rt ''AWS_REGION'' = Some region \<and>
    environ rt ''GRAFANA_WORKSPACE_ID'' = Some workspace_id \<and>
    environ rt ''GRAFANA_ENDPOINT'' = Some endpoint \<and>
    environ rt ''AMP_WORKSPACE_ID'' = Some amp \<and>
    perform rt (Boto3Client ''grafana'' region) s = (Inr g, qa) \<and>
    perform rt (Boto3Client ''s3'' region) qa = (Inr c, qb) \<and>
    perform rt (CreateWorkspaceApiKey region ''cdk-provision'' ''ADMIN'' 3600 workspace_id) qb
      = (Inr key_resp, qc) \<and>
    ensure_prom_datasource rt endpoint (content key_resp) region amp qc = (Inr (), qd) \<longrightarrow>
      provision rt s =
        import_uris rt region endpoint (content key_resp)
          (dashboard_uris (case environ rt ''DASHBOARD_URIS'' of None \<Rightarrow> [] | Some v \<Rightarrow> v)) qd) \<and>
   (request_type_of event \<in> {''Create'', ''Update''} \<longrightarrow>
      handler_steps rt event s = provision rt s \<and>
      prefix (trace (snd (provision rt s))) (trace (snd (handler rt event ctx s)))) \<and>
   new_calls t (snd (import_uri rt s3 ep k uri t)) = locator_calls rt s3 ep k uri (world t) \<and>
   import_uris rt s3 ep k [] t = (Inr (), t) \<and>
   new_calls t (snd (import_uris rt s3 ep k (uri # uris) t)) =
     new_calls t (snd (import_uri rt s3 ep k uri t)) @
     (case fst (import_uri rt s3 ep k uri t) of
        Inl e \<Rightarrow> []
      | Inr x \<Rightarrow> new_calls (snd (import_uri rt s3 ep k uri t))
                   (snd (import_uris rt s3 ep k uris (snd (import_uri rt s3 ep k uri t))))) \<and>
   import_uris rt s3 ep k (xs @ ys) t =
     (case import_uris rt s3 ep k xs t of
        (Inl e, t1) \<Rightarrow> (Inl e, t1)
      | (Inr u, t1) \<Rightarrow> import_uris rt s3 ep k ys t1) \<and>
   prefix (filter is_get_object (new_calls t (snd (import_uris rt s3 ep k uris t))))
          (map (locator_call s3) (filter (prefix ''s3://'') uris)) \<and>
   (fst (import_uris rt s3 ep k uris t) = Inr () \<longrightarrow>
      filter is_get_object (new_calls t (snd (import_uris rt s3 ep k uris t))) =
        map (locator_call s3) (filter (prefix ''s3://'') uris))"
proof -
  obtain r t' where run: "import_uris rt s3 ep k uris t = (r, t')"
    by (cases "import_uris rt s3 ep k uris t")
  from import_uris_fetches [OF run] obtain cs where
    cs: "trace t' = trace t @ cs"
        "prefix (filter is_get_object cs) (map (locator_call s3) (filter (prefix ''s3://'') uris))"
        "r = Inr () \<longrightarrow>
           filter is_get_object cs = map (locator_call s3) (filter (prefix ''s3://'') uris)"
    by blast
  have nc: "new_calls t t' = cs" using cs(1) by (simp add: new_calls_def)
  have order: "prefix (filter is_get_object (new_calls t (snd (import_uris rt s3 ep k uris t))))
          (map (locator_call s3) (filter (prefix ''s3://'') uris))"
    using run nc cs(2) by simp
  have full: "fst (import_uris rt s3 ep k uris t) = Inr () \<longrightarrow>
      filter is_get_object (new_calls t (snd (import_uris rt s3 ep k uris t))) =
        map (locator_call s3) (filter (prefix ''s3://'') uris)"
    using run nc cs(3) by simp
  have strings: "join_py CHR '','' (split_py CHR '','' s3_uris) = s3_uris \<and>
   (\<forall>p \<in> set (split_py CHR '','' s3_uris). CHR '','' \<notin> set p) \<and>
   dashboard_uris s3_uris = filter (\<lambda>u. u \<noteq> []) (map strip (split_py CHR '','' s3_uris)) \<and>
   (\<forall>p. \<exists>l r. p = l @ strip p @ r \<and> (\<forall>c \<in> set l. isspace c) \<and> (\<forall>c \<in> set r. isspace c)) \<and>
   (\<forall>p. strip p \<noteq> [] \<longrightarrow> \<not> isspace (hd (strip p)) \<and> \<not> isspace (last (strip p))) \<and>
   [] \<notin> set (dashboard_uris s3_uris) \<and>
   dashboard_uris (a @ CHR '','' # b) = dashboard_uris a @ dashboard_uris b \<and>
   dashboard_uris ''s3://b/a.json, ,s3://b/c.json'' = [''s3://b/a.json'', ''s3://b/c.json'']"
    using join_split_py [of "CHR '',''" s3_uris] split_py_no_sep [of _ "CHR '',''" s3_uris]
      strip_decomposition strip_ends dashboard_uris_not_blank [of s3_uris]
      dashboard_uris_append [of a b] dashboard_uris_example
    by (simp add: dashboard_uris_def del: split_py.simps)
  have prov: "environ rt ''AWS_REGION'' = Some region \<and>
    environ rt ''GRAFANA_WORKSPACE_ID'' = Some workspace_id \<and>
    environ rt ''GRAFANA_ENDPOINT'' = Some endpoint \<and>
    environ rt ''AMP_WORKSPACE_ID'' = Some amp \<and>
    perform rt (Boto3Client ''grafana'' region) s = (Inr g, qa) \<and>
    perform rt (Boto3Client ''s3'' region) qa = (Inr c, qb) \<and>
    perform rt (CreateWorkspaceApiKey region ''cdk-provision'' ''ADMIN'' 3600 workspace_id) qb
      = (Inr key_resp, qc) \<and>
    ensure_prom_datasource rt endpoint (content key_resp) region amp qc = (Inr (), qd) \<longrightarrow>
      provision rt s =
        import_uris rt region endpoint (content key_resp)
          (dashboard_uris (case environ rt ''DASHBOARD_URIS'' of None \<Rightarrow> [] | Some v \<Rightarrow> v)) qd"
    using provision_runs_loop [of rt region workspace_id endpoint amp s g qa c qb key_resp qc qd]
    by blast
  have hand: "request_type_of event \<in> {''Create'', ''Update''} \<longrightarrow>
      handler_steps rt event s = provision rt s \<and>
      prefix (trace (snd (provision rt s))) (trace (snd (handler rt event ctx s)))"
    using handler_extends_provision [of event rt s ctx] by (simp add: handler_steps_def)
  have loop: "new_calls t (snd (import_uri rt s3 ep k uri t)) = locator_calls rt s3 ep k uri (world t) \<and>
   import_uris rt s3 ep k [] t = (Inr (), t) \<and>
   new_calls t (snd (import_uris rt s3 ep k (uri # uris) t)) =
     new_calls t (snd (import_uri rt s3 ep k uri t)) @
     (case fst (import_uri rt s3 ep k uri t) of
        Inl e \<Rightarrow> []
      | Inr x \<Rightarrow> new_calls (snd (import_uri rt s3 ep k uri t))
                   (snd (import_uris rt s3 ep k uris (snd (import_uri rt s3 ep k uri t))))) \<and>
   import_uris rt s3 ep k (xs @ ys) t =
     (case import_uris rt s3 ep k xs t of
        (Inl e, t1) \<Rightarrow> (Inl e, t1)
      | (Inr u, t1) \<Rightarrow> import_uris rt s3 ep k ys t1)"
    using import_uri_calls [of t rt s3 ep k uri] import_uris_calls_cons [of t rt s3 ep k uri uris]
      import_uris_append [of rt s3 ep k xs ys t]
    by (simp only: import_uris.simps) 
  from strings prov hand loop order full show ?thesis
    by (elim conjE, intro conjI) assumption+
qed

theorem handler_processes_dashboard_uris_left_to_right_witness:
  "environ healthy_runtime ''DASHBOARD_URIS'' = Some ''s3://b/a.json, ,s3://b/c.json'' \<and>
   request_type_of create_event \<in> {''Create'', ''Update''} \<and>
   new_calls initial_state (snd (provision healthy_runtime initial_state)) =
     [Boto3Client ''grafana'' ''eu-west-1'', Boto3Client ''s3'' ''eu-west-1'',
      CreateWorkspaceApiKey ''eu-west-1'' ''cdk-provision'' ''ADMIN'' 3600 ''g-1'',
      UrlOpen (datasource_put ''https://g-1.grafana'' ''{}'' ''eu-west-1'' ''ws-1'') None,
      GetObject ''eu-west-1'' ''b'' ''a.json'',
      UrlOpen (import_request ''https://g-1.grafana'' ''{}'' (JObject [])) None,
      GetObject ''eu-west-1'' ''b'' ''c.json'',
      UrlOpen (import_request ''https://g-1.grafana'' ''{}'' (JObject [])) None] \<and>
   prefix (trace (snd (provision healthy_runtime initial_state)))
     (trace (snd (handler healthy_runtime create_event example_context initial_state)))"
proof -
  let ?ok = "\<lparr>status = 200, content = ''{}''\<rparr>"
  let ?c1 = "Boto3Client ''grafana'' ''eu-west-1''"
  let ?c2 = "Boto3Client ''s3'' ''eu-west-1''"
  let ?c3 = "CreateWorkspaceApiKey ''eu-west-1'' ''cdk-provision'' ''ADMIN'' 3600 ''g-1''"
  let ?c4 = "UrlOpen (datasource_put ''https://g-1.grafana'' ''{}'' ''eu-west-1'' ''ws-1'') None"
  let ?q1 = "initial_state\<lparr>trace := [?c1]\<rparr>"
  let ?q2 = "initial_state\<lparr>trace := [?c1, ?c2]\<rparr>"
  let ?q3 = "initial_state\<lparr>trace := [?c1, ?c2, ?c3]\<rparr>"
  let ?q4 = "initial_state\<lparr>trace := [?c1, ?c2, ?c3, ?c4]\<rparr>"
  have hp: "\<And>c s. perform healthy_runtime c s = (Inr ?ok, s\<lparr>trace := trace s @ [c]\<rparr>)"
    by (simp add: perform_def healthy_runtime_def)
  have hj: "\<And>t. json_loads healthy_runtime t = Inr (JObject [])"
    by (simp add: healthy_runtime_def)
  have env: "environ healthy_runtime ''AWS_REGION'' = Some ''eu-west-1''"
    "environ healthy_runtime ''GRAFANA_WORKSPACE_ID'' = Some ''g-1''"
    "environ healthy_runtime ''GRAFANA_ENDPOINT'' = Some ''https://g-1.grafana''"
    "environ healthy_runtime ''AMP_WORKSPACE_ID'' = Some ''ws-1''"
    "environ healthy_runtime ''DASHBOARD_URIS'' = Some ''s3://b/a.json, ,s3://b/c.json''"
    by (simp_all add: healthy_runtime_def example_environ_def)
  have rq: "request_type_of create_event \<in> {''Create'', ''Update''}"
    by (simp add: request_type_of_def create_event_def)
  have p1: "perform healthy_runtime ?c1 initial_state = (Inr ?ok, ?q1)"
    by (simp add: hp initial_state_def)
  have p2: "perform healthy_runtime ?c2 ?q1 = (Inr ?ok, ?q2)"
    by (simp add: hp initial_state_def)
  have p3: "perform healthy_runtime ?c3 ?q2 = (Inr ?ok, ?q3)"
    by (simp add: hp initial_state_def)
  have p4: "ensure_prom_datasource healthy_runtime ''https://g-1.grafana'' (content ?ok)
              ''eu-west-1'' ''ws-1'' ?q3 = (Inr (), ?q4)"
    by (simp add: ensure_prom_datasource_def hp initial_state_def)
  note inst = handler_processes_dashboard_uris_left_to_right
      [where rt = healthy_runtime and s = initial_state and region = "''eu-west-1''"
         and workspace_id = "''g-1''" and endpoint = "''https://g-1.grafana''" and amp = "''ws-1''"
         and g = ?ok and qa = ?q1 and c = ?ok and qb = ?q2 and key_resp = ?ok and qc = ?q3
         and qd = ?q4 and event = create_event and ctx = example_context]
  from inst env p1 p2 p3 p4
  have pv: "provision healthy_runtime initial_state =
      import_uris healthy_runtime ''eu-west-1'' ''https://g-1.grafana'' (content ?ok)
        (dashboard_uris (case environ healthy_runtime ''DASHBOARD_URIS'' of None \<Rightarrow> [] | Some v \<Rightarrow> v)) ?q4"
    by blast
  from inst rq
  have pre: "prefix (trace (snd (provision healthy_runtime initial_state)))
     (trace (snd (handler healthy_runtime create_event example_context initial_state)))"
    by blast
  have calls: "new_calls initial_state (snd (provision healthy_runtime initial_state)) =
     [?c1, ?c2, ?c3, ?c4,
      GetObject ''eu-west-1'' ''b'' ''a.json'',
      UrlOpen (import_request ''https://g-1.grafana'' ''{}'' (JObject [])) None,
      GetObject ''eu-west-1'' ''b'' ''c.json'',
      UrlOpen (import_request ''https://g-1.grafana'' ''{}'' (JObject [])) None]"
    unfolding pv
    by (simp add: env dashboard_uris_example import_uri_def get_dashboard_json_def
          import_dashboard_def hp hj new_calls_def initial_state_def)
  from env(5) rq calls pre show ?thesis by (simp only:) 
qed

section \<open>The readiness waiter\<close>

lemma perform_clock:
  "perform rt c s = (r, s') \<Longrightarrow> clock s' = clock s + int (elapse rt c (world s))"
  by (auto simp: perform_def split: prod.splits)

lemma perform_stdout: "perform rt c s = (r, s') \<Longrightarrow> stdout s' = stdout s"
  by (auto simp: perform_def split: prod.splits)

lemma poll_state_Suc:
  "poll_state rt (Suc n) s = sleep 2 (snd (perform rt (health_call rt) (poll_state rt n s)))"
  by (induction n arbitrary: s) simp_all

lemma poll_clock_step:
  "clock (poll_state rt (Suc n) s) =
     clock (poll_state rt n s) + int (elapse rt (health_call rt) (world (poll_state rt n s))) + 2000"
proof -
  obtain r s' where p: "perform rt (health_call rt) (poll_state rt n s) = (r, s')"
    by (cases "perform rt (health_call rt) (poll_state rt n s)")
  show ?thesis
    unfolding poll_state_Suc using p perform_clock [OF p] by (simp add: sleep_def)
qed

lemma poll_clock_mono: "clock s \<le> clock (poll_state rt n s)"
proof (induction n)
  case 0
  then show ?case by simp
next
  case (Suc n)
  with poll_clock_step [of rt n s] show ?case by simp
qed

lemma wait_loop_ready:
  "clock s < D \<Longrightarrow> ready (fst (perform rt (health_call rt) s)) \<Longrightarrow>
     wait_loop rt D s = (Inr (), snd (perform rt (health_call rt) s))"
  by (subst wait_loop.simps) (auto simp: ready_def split: prod.splits sum.splits)

lemma wait_loop_not_ready:
  "clock s < D \<Longrightarrow> \<not> ready (fst (perform rt (health_call rt) s)) \<Longrightarrow>
     wait_loop rt D s = wait_loop rt D (sleep 2 (snd (perform rt (health_call rt) s)))"
  by (subst wait_loop.simps) (auto simp: ready_def split: prod.splits sum.splits)

lemma wait_loop_late:
  "\<not> clock s < D \<Longrightarrow>
     wait_loop rt D s = (Inl (TimeoutError ''Grafana did not become ready in time''), s)"
  by (subst wait_loop.simps) simp

lemma wait_loop_success:
  "clock (poll_state rt n s) < D \<Longrightarrow>
   ready (fst (perform rt (health_call rt) (poll_state rt n s))) \<Longrightarrow>
   fst (wait_loop rt D s) = Inr ()"
proof (induction n arbitrary: s)
  case 0
  then show ?case by (simp add: wait_loop_ready)
next
  case (Suc n)
  let ?s1 = "sleep 2 (snd (perform rt (health_call rt) s))"
  have "clock s \<le> clock (poll_state rt (Suc n) s)" by (rule poll_clock_mono)
  with Suc.prems have lt: "clock s < D" by simp
  show ?case
  proof (cases "ready (fst (perform rt (health_call rt) s))")
    case True
    with lt show ?thesis by (simp add: wait_loop_ready)
  next
    case False
    from Suc.prems have "fst (wait_loop rt D ?s1) = Inr ()"
      by (intro Suc.IH) simp_all
    with lt False show ?thesis by (simp add: wait_loop_not_ready)
  qed
qed

lemma next_poll_clock:
  "clock (sleep 2 (snd (perform rt c s))) = clock s + int (elapse rt c (world s)) + 2000"
  by (simp add: sleep_def perform_def split: prod.splits)

lemma wait_loop_timeout:
  "(\<And>n. clock (poll_state rt n s) < D \<Longrightarrow>
         \<not> ready (fst (perform rt (health_call rt) (poll_state rt n s)))) \<Longrightarrow>
   fst (wait_loop rt D s) = Inl (TimeoutError ''Grafana did not become ready in time'') \<and>
   D \<le> clock (snd (wait_loop rt D s))"
proof (induction "nat (D - clock s)" arbitrary: s rule: less_induct)
  case less
  show ?case
  proof (cases "clock s < D")
    case False
    then show ?thesis by (simp add: wait_loop_late)
  next
    case True
    let ?s1 = "sleep 2 (snd (perform rt (health_call rt) s))"
    from less.prems [of 0] True have nr: "\<not> ready (fst (perform rt (health_call rt) s))" by simp
    have later: "\<And>n. clock (poll_state rt n ?s1) < D \<Longrightarrow>
         \<not> ready (fst (perform rt (health_call rt) (poll_state rt n ?s1)))"
      using less.prems [of "Suc _"] by simp
    have "nat (D - clock ?s1) < nat (D - clock s)"
      using True next_poll_clock [of rt "health_call rt" s] by simp
    then have "fst (wait_loop rt D ?s1) = Inl (TimeoutError ''Grafana did not become ready in time'') \<and>
          D \<le> clock (snd (wait_loop rt D ?s1))"
      using later by (rule less.hyps)
    with True nr show ?thesis by (simp add: wait_loop_not_ready)
  qed
qed

lemma wait_loop_bound:
  assumes d: "\<And>w. elapse rt (health_call rt) w \<le> d"
  shows "clock s < D + 2000 + int d \<Longrightarrow>
         fst (wait_loop rt D s) \<noteq> Inr () \<Longrightarrow>
         clock (snd (wait_loop rt D s)) < D + 2000 + int d"
proof (induction "nat (D - clock s)" arbitrary: s rule: less_induct)
  case less
  show ?case
  proof (cases "clock s < D")
    case False
    with less.prems show ?thesis by (simp add: wait_loop_late)
  next
    case True
    let ?s1 = "sleep 2 (snd (perform rt (health_call rt) s))"
    have c1: "clock ?s1 = clock s + int (elapse rt (health_call rt) (world s)) + 2000"
      by (rule next_poll_clock)
    show ?thesis
    proof (cases "ready (fst (perform rt (health_call rt) s))")
      case True
      with \<open>clock s < D\<close> less.prems(2) show ?thesis by (simp add: wait_loop_ready)
    next
      case False
      with True have w: "wait_loop rt D s = wait_loop rt D ?s1" by (simp add: wait_loop_not_ready)
      have m: "nat (D - clock ?s1) < nat (D - clock s)" using True c1 by simp
      have b: "clock ?s1 < D + 2000 + int d" using True c1 d [of "world s"] by simp
      from less.hyps [OF m b] less.prems(2) w show ?thesis by simp
    qed
  qed
qed

lemma wait_loop_result:
  "fst (wait_loop rt D s) = Inr () \<or>
   fst (wait_loop rt D s) = Inl (TimeoutError ''Grafana did not become ready in time'')"
proof (induction "nat (D - clock s)" arbitrary: s rule: less_induct)
  case less
  show ?case
  proof (cases "clock s < D")
    case False
    then show ?thesis by (simp add: wait_loop_late)
  next
    case True
    let ?s1 = "sleep 2 (snd (perform rt (health_call rt) s))"
    show ?thesis
    proof (cases "ready (fst (perform rt (health_call rt) s))")
      case True
      with \<open>clock s < D\<close> show ?thesis by (simp add: wait_loop_ready)
    next
      case False
      have m: "nat (D - clock ?s1) < nat (D - clock s)"
        using True next_poll_clock [of rt "health_call rt" s] by simp
      from less.hyps [OF m] True False show ?thesis by (simp add: wait_loop_not_ready)
    qed
  qed
qed

lemma wait_loop_effects:
  "stdout (snd (wait_loop rt D s)) = stdout s \<and>
   (\<exists>cs. trace (snd (wait_loop rt D s)) = trace s @ cs \<and> (\<forall>c \<in> set cs. c = health_call rt))"
proof (induction "nat (D - clock s)" arbitrary: s rule: less_induct)
  case less
  show ?case
  proof (cases "clock s < D")
    case False
    then show ?thesis by (simp add: wait_loop_late)
  next
    case True
    let ?s1 = "sleep 2 (snd (perform rt (health_call rt) s))"
    obtain r s0 where p: "perform rt (health_call rt) s = (r, s0)"
      by (cases "perform rt (health_call rt) s")
    have e0: "stdout s0 = stdout s" "trace s0 = trace s @ [health_call rt]"
      using perform_stdout [OF p] perform_trace [OF p] by simp_all
    show ?thesis
    proof (cases "ready (fst (perform rt (health_call rt) s))")
      case True
      with \<open>clock s < D\<close> p e0 show ?thesis by (simp add: wait_loop_ready)
    next
      case False
      have m: "nat (D - clock ?s1) < nat (D - clock s)"
        using True next_poll_clock [of rt "health_call rt" s] by simp
      from less.hyps [OF m] obtain cs where
        "stdout (snd (wait_loop rt D ?s1)) = stdout ?s1"
        "trace (snd (wait_loop rt D ?s1)) = trace ?s1 @ cs" "\<forall>c \<in> set cs. c = health_call rt"
        by blast
      with p e0 have "stdout (snd (wait_loop rt D ?s1)) = stdout s \<and>
          trace (snd (wait_loop rt D ?s1)) = trace s @ (health_call rt # cs) \<and>
          (\<forall>c \<in> set (health_call rt # cs). c = health_call rt)"
        by (simp add: sleep_def)
      moreover from True False have "wait_loop rt D s = wait_loop rt D ?s1"
        by (rule wait_loop_not_ready)
      ultimately show ?thesis by (simp only:) blast
    qed
  qed
qed

text \<open>
  Claim C7, as amended. The health checks of a run start in the states
  \<open>poll_state rt n s\<close>. If some health check that starts before the deadline is answered
  with status 200, the waiter returns and prints nothing. If none is, the waiter raises
  TimeoutError, not earlier than the deadline, and, for a non-negative timeout and health
  checks that take at most \<open>d\<close> milliseconds, less than one poll interval plus \<open>d\<close> after
  the deadline. The waiter never raises anything else and calls nothing but the health
  endpoint; an exception of a health check and a status other than 200 both count as not
  ready; consecutive health checks are separated by the duration of the check and a
  constant sleep of 2 seconds.
\<close>

theorem wait_for_grafana_ready_outcome:
  "((\<exists>n. clock (poll_state rt n s) < clock s + 1000 * timeout_seconds \<and>
          ready (fst (perform rt (health_call rt) (poll_state rt n s)))) \<longrightarrow>
      fst (wait_for_grafana_ready rt timeout_seconds s) = Inr () \<and>
      stdout (snd (wait_for_grafana_ready rt timeout_seconds s)) = stdout s) \<and>
   ((\<forall>n. clock (poll_state rt n s) < clock s + 1000 * timeout_seconds \<longrightarrow>
          \<not> ready (fst (perform rt (health_call rt) (poll_state rt n s)))) \<longrightarrow>
      fst (wait_for_grafana_ready rt timeout_seconds s) =
        Inl (TimeoutError ''Grafana did not become ready in time'') \<and>
      clock s + 1000 * timeout_seconds \<le> clock (snd (wait_for_grafana_ready rt timeout_seconds s)) \<and>
      (0 \<le> timeout_seconds \<and> (\<forall>w. elapse rt (health_call rt) w \<le> d) \<longrightarrow>
         clock (snd (wait_for_grafana_ready rt timeout_seconds s)) <
           clock s + 1000 * timeout_seconds + 2000 + int d)) \<and>
   (fst (wait_for_grafana_ready rt timeout_seconds s) = Inr () \<or>
    fst (wait_for_grafana_ready rt timeout_seconds s) =
      Inl (TimeoutError ''Grafana did not become ready in time'')) \<and>
   (\<forall>c \<in> set (new_calls s (snd (wait_for_grafana_ready rt timeout_seconds s))). c = health_call rt) \<and>
   (\<forall>n. clock (poll_state rt (Suc n) s) =
          clock (poll_state rt n s) + int (elapse rt (health_call rt) (world (poll_state rt n s))) + 2000) \<and>
   (\<forall>e. \<not> ready (Inl e)) \<and> (\<forall>resp. ready (Inr resp) \<longleftrightarrow> status resp = 200)"
proof -
  let ?D = "clock s + 1000 * timeout_seconds"
  let ?w = "wait_loop rt ?D s"
  have eff: "stdout (snd ?w) = stdout s"
    "\<forall>c \<in> set (new_calls s (snd ?w)). c = health_call rt"
    using wait_loop_effects [of rt ?D s] by (auto simp: new_calls_def)
  have ok: "(\<exists>n. clock (poll_state rt n s) < ?D \<and>
          ready (fst (perform rt (health_call rt) (poll_state rt n s)))) \<longrightarrow> fst ?w = Inr ()"
    using wait_loop_success [of rt _ s ?D] by blast
  have late: "fst ?w = Inl (TimeoutError ''Grafana did not become ready in time'') \<and> ?D \<le> clock (snd ?w)"
    if "\<forall>n. clock (poll_state rt n s) < ?D \<longrightarrow>
          \<not> ready (fst (perform rt (health_call rt) (poll_state rt n s)))"
    using that wait_loop_timeout [of rt s ?D] by blast
  have bound: "clock (snd ?w) < ?D + 2000 + int d"
    if "fst ?w = Inl (TimeoutError ''Grafana did not become ready in time'')"
       "0 \<le> timeout_seconds" "\<forall>w. elapse rt (health_call rt) w \<le> d"
  proof -
    from that(3) have "\<And>w. elapse rt (health_call rt) w \<le> d" by blast
    moreover from that(2) have "clock s < ?D + 2000 + int d" by simp
    moreover from that(1) have "fst ?w \<noteq> Inr ()" by simp
    ultimately show ?thesis by (rule wait_loop_bound)
  qed
  show ?thesis
    unfolding wait_for_grafana_ready_def
    using eff ok late bound wait_loop_result [of rt ?D s] poll_clock_step [of rt _ s]
    by (auto simp: ready_def)
qed

theorem wait_for_grafana_ready_outcome_witness:
  "clock (poll_state healthy_runtime 0 initial_state) < clock initial_state + 1000 * 120 \<and>
   ready (fst (perform healthy_runtime (health_call healthy_runtime) (poll_state healthy_runtime 0 initial_state))) \<and>
   fst (wait_for_grafana_ready healthy_runtime 120 initial_state) = Inr () \<and>
   (\<forall>n. \<not> ready (fst (perform unreachable_runtime (health_call unreachable_runtime)
                          (poll_state unreachable_runtime n initial_state)))) \<and>
   (\<forall>w. elapse unreachable_runtime (health_call unreachable_runtime) w \<le> 5000) \<and>
   fst (wait_for_grafana_ready unreachable_runtime 120 initial_state) =
     Inl (TimeoutError ''Grafana did not become ready in time'') \<and>
   clock initial_state + 1000 * 120 \<le> clock (snd (wait_for_grafana_ready unreachable_runtime 120 initial_state)) \<and>
   clock (snd (wait_for_grafana_ready unreachable_runtime 120 initial_state)) <
     clock initial_state + 1000 * 120 + 2000 + 5000"
proof -
  have a: "clock (poll_state healthy_runtime 0 initial_state) < clock initial_state + 1000 * 120"
    by (simp add: initial_state_def)
  have b: "ready (fst (perform healthy_runtime (health_call healthy_runtime)
                        (poll_state healthy_runtime 0 initial_state)))"
    by (simp add: ready_def perform_def healthy_runtime_def)
  have c: "\<forall>n. \<not> ready (fst (perform unreachable_runtime (health_call unreachable_runtime)
                          (poll_state unreachable_runtime n initial_state)))"
    by (simp add: unreachable_perform ready_def)
  have d: "\<forall>w. elapse unreachable_runtime (health_call unreachable_runtime) w \<le> 5000"
    by (simp add: unreachable_runtime_def)
  from a b have ab: "\<exists>n. clock (poll_state healthy_runtime n initial_state) < clock initial_state + 1000 * 120 \<and>
      ready (fst (perform healthy_runtime (health_call healthy_runtime) (poll_state healthy_runtime n initial_state)))"
    by blast
  show ?thesis
    using a b c d ab
      wait_for_grafana_ready_outcome [of healthy_runtime initial_state 120 0]
      wait_for_grafana_ready_outcome [of unreachable_runtime initial_state 120 5000]
    by simp
qed

text \<open>
  Claim C7 as stated bounds the overshoot by one poll interval. With a timeout of one
  second and a health check that fails after five seconds, the waiter raises seven
  seconds after its start: six seconds after the deadline.
\<close>

theorem wait_timeout_overshoot_counterexample:
  "fst (wait_for_grafana_ready unreachable_runtime 1 initial_state) =
     Inl (TimeoutError ''Grafana did not become ready in time'') \<and>
   clock (snd (wait_for_grafana_ready unreachable_runtime 1 initial_state)) = 7000 \<and>
   \<not> clock (snd (wait_for_grafana_ready unreachable_runtime 1 initial_state))
       \<le> clock initial_state + 1000 * 1 + 2000"
proof -
  let ?s1 = "sleep 2 (snd (perform unreachable_runtime (health_call unreachable_runtime) initial_state))"
  have c0: "clock initial_state = 0" by (simp add: initial_state_def)
  have c1: "clock ?s1 = 7000" by (simp add: unreachable_perform sleep_def initial_state_def)
  have nr: "\<not> ready (fst (perform unreachable_runtime (health_call unreachable_runtime) initial_state))"
    by (simp add: unreachable_perform ready_def)
  have "wait_loop unreachable_runtime 1000 initial_state = wait_loop unreachable_runtime 1000 ?s1"
    using c0 nr by (intro wait_loop_not_ready) simp_all
  also have "\<dots> = (Inl (TimeoutError ''Grafana did not become ready in time''), ?s1)"
    using c1 by (intro wait_loop_late) simp
  finally show ?thesis
    using c0 c1 by (simp add: wait_for_grafana_ready_def)
qed

end
